theory Spec2Isabelle
  imports Complex_Main "HOL-Library.Word"
begin

section \<open>Numbers\<close>

text \<open>
  The model follows the class \<open>DrawingManager\<close> of \<open>script.js\<close>.  A JavaScript number is
  an IEEE 754 double; it is modelled as the real number it denotes, and every arithmetic
  operation rounds its exact result to the nearest double, ties to the even significand
  (53 significant bits, least bit not below \<open>2\<^sup>-\<^sup>1\<^sup>0\<^sup>7\<^sup>4\<close>).  Not modelled: NaN, the infinities,
  overflow and the sign of zero; landmark coordinates lie in the unit interval and canvas
  sizes are far from the overflow threshold.
\<close>

definition pow2 :: "int \<Rightarrow> real" where
  "pow2 e = (if 0 \<le> e then 2 ^ nat e else 1 / 2 ^ nat (- e))"

text \<open>The exponent \<open>e\<close> with \<open>2\<^sup>e \<le> |x| < 2\<^sup>e\<^sup>+\<^sup>1\<close>.\<close>

definition binade :: "real \<Rightarrow> int" where
  "binade x = \<lfloor>log 2 \<bar>x\<bar>\<rfloor>"

definition round_half_even :: "real \<Rightarrow> int" where
  "round_half_even q =
     (let f = \<lfloor>q\<rfloor>; r = q - of_int f
      in if r < 1 / 2 then f else if 1 / 2 < r then f + 1 else if even f then f else f + 1)"

definition to_double :: "real \<Rightarrow> real" where
  "to_double x =
     (if x = 0 then 0
      else let e = max (binade x - 52) (- 1074)
           in of_int (round_half_even (x / pow2 e)) * pow2 e)"

definition double_add :: "real \<Rightarrow> real \<Rightarrow> real" where
  "double_add a b = to_double (a + b)"

definition double_sub :: "real \<Rightarrow> real \<Rightarrow> real" where
  "double_sub a b = to_double (a - b)"

definition double_mul :: "real \<Rightarrow> real \<Rightarrow> real" where
  "double_mul a b = to_double (a * b)"

definition double_div :: "real \<Rightarrow> real \<Rightarrow> real" where
  "double_div a b = to_double (a / b)"

section \<open>Values, errors and outcomes\<close>

text \<open>
  An object \<open>{x, y}\<close> is a pair; a hand landmark \<open>{x, y, z}\<close> is the pair of its \<open>x\<close> and
  \<open>y\<close>, the only fields the code reads.
\<close>

type_synonym point = "real \<times> real"
type_synonym landmark = point
type_synonym hand = "landmark list"

datatype js_error = TypeError | IndexSizeError

text \<open>
  A call either returns or throws.  In both cases the mutations done so far stay, so a
  thrown outcome carries the state the exception left behind.
\<close>

datatype 's outcome = Done 's | Thrown js_error 's

fun state_of :: "'s outcome \<Rightarrow> 's" where
  "state_of (Done s) = s"
| "state_of (Thrown e s) = s"

fun returned :: "'s outcome \<Rightarrow> bool" where
  "returned (Done s) = True"
| "returned (Thrown e s) = False"

section \<open>The 2D canvas\<close>

text \<open>
  A pixel is four bytes (red, green, blue, alpha); a raster gives the pixel of column \<open>x\<close>
  and row \<open>y\<close>.  Snapshots (\<open>ImageData\<close>) are exact copies of pixels: the loss a browser
  may add when it converts to and from premultiplied alpha is not modelled.
\<close>

type_synonym rgba = "8 word \<times> 8 word \<times> 8 word \<times> 8 word"
type_synonym raster = "nat \<Rightarrow> nat \<Rightarrow> rgba"

definition transparent :: rgba where
  "transparent = (0, 0, 0, 0)"

record ImageData =
  img_width :: nat
  img_height :: nat
  img_data :: raster

text \<open>The part of the context that \<open>save\<close> and \<open>restore\<close> handle, as far as the code sets it.\<close>

record drawing_state =
  strokeStyle :: string
  lineWidth :: real
  lineCap :: string

definition default_drawing_state :: drawing_state where
  "default_drawing_state = \<lparr>strokeStyle = ''#000000'', lineWidth = 1, lineCap = ''butt''\<rparr>"

text \<open>
  A canvas element together with its 2D context: the dimensions, the bitmap, the drawing
  state, the current path (a list of subpaths; not part of the drawing state) and the
  stack of saved drawing states.
\<close>

record canvas2d =
  width :: nat
  height :: nat
  bitmap :: raster
  dstate :: drawing_state
  path :: "point list list"
  saved :: "drawing_state list"

text \<open>
  The browser's rasteriser is a parameter: given the drawing state, the current path and
  the bitmap it returns the bitmap with the path stroked.
\<close>

type_synonym rasteriser = "drawing_state \<Rightarrow> point list list \<Rightarrow> raster \<Rightarrow> raster"

text \<open>
  What the browser supplies besides: \<open>Math.hypot\<close>, whose result the language standard
  leaves to the implementation to approximate.
\<close>

record engine =
  rasterise :: rasteriser
  math_hypot :: "real \<Rightarrow> real \<Rightarrow> real"

text \<open>
  \<open>getImageData(0, 0, sw, sh)\<close>: throws \<open>IndexSizeError\<close> when \<open>sw\<close> or \<open>sh\<close> is zero;
  pixels outside the canvas read as transparent black.
\<close>

definition getImageData :: "nat \<Rightarrow> nat \<Rightarrow> canvas2d \<Rightarrow> js_error + ImageData" where
  "getImageData sw sh c =
     (if sw = 0 \<or> sh = 0 then Inl IndexSizeError
      else Inr \<lparr>img_width = sw, img_height = sh,
                img_data = (\<lambda>x y. if x < sw \<and> y < sh \<and> x < width c \<and> y < height c
                                    then bitmap c x y else transparent)\<rparr>)"

text \<open>\<open>putImageData(imageData, 0, 0)\<close>: writes the pixels that fall inside the canvas.\<close>

definition putImageData :: "ImageData \<Rightarrow> canvas2d \<Rightarrow> canvas2d" where
  "putImageData im c =
     c\<lparr>bitmap := (\<lambda>x y. if x < img_width im \<and> y < img_height im \<and> x < width c \<and> y < height c
                          then img_data im x y else bitmap c x y)\<rparr>"


text \<open>
  Assigning \<open>canvas.width\<close> or \<open>canvas.height\<close> resets the context to its default state:
  the bitmap becomes transparent black, the path and the stack of saved states are
  emptied and the drawing state is the default one.
\<close>

definition reset_context :: "canvas2d \<Rightarrow> canvas2d" where
  "reset_context c =
     c\<lparr>bitmap := (\<lambda>x y. transparent), dstate := default_drawing_state, path := [], saved := []\<rparr>"

definition set_width :: "nat \<Rightarrow> canvas2d \<Rightarrow> canvas2d" where
  "set_width w c = reset_context (c\<lparr>width := w\<rparr>)"

definition set_height :: "nat \<Rightarrow> canvas2d \<Rightarrow> canvas2d" where
  "set_height h c = reset_context (c\<lparr>height := h\<rparr>)"

definition save :: "canvas2d \<Rightarrow> canvas2d" where
  "save c = c\<lparr>saved := dstate c # saved c\<rparr>"

definition restore :: "canvas2d \<Rightarrow> canvas2d" where
  "restore c = (case saved c of [] \<Rightarrow> c | s # ss \<Rightarrow> c\<lparr>dstate := s, saved := ss\<rparr>)"

text \<open>The colour picker only delivers valid colours, so the assignment always takes effect.\<close>

definition set_strokeStyle :: "string \<Rightarrow> canvas2d \<Rightarrow> canvas2d" where
  "set_strokeStyle col c = c\<lparr>dstate := (dstate c)\<lparr>strokeStyle := col\<rparr>\<rparr>"

text \<open>The context ignores a line width that is not positive.\<close>

definition set_lineWidth :: "real \<Rightarrow> canvas2d \<Rightarrow> canvas2d" where
  "set_lineWidth w c = (if 0 < w then c\<lparr>dstate := (dstate c)\<lparr>lineWidth := w\<rparr>\<rparr> else c)"

definition set_lineCap :: "string \<Rightarrow> canvas2d \<Rightarrow> canvas2d" where
  "set_lineCap cap c = c\<lparr>dstate := (dstate c)\<lparr>lineCap := cap\<rparr>\<rparr>"

definition beginPath :: "canvas2d \<Rightarrow> canvas2d" where
  "beginPath c = c\<lparr>path := []\<rparr>"

definition moveTo :: "point \<Rightarrow> canvas2d \<Rightarrow> canvas2d" where
  "moveTo p c = c\<lparr>path := path c @ [[p]]\<rparr>"

definition lineTo :: "point \<Rightarrow> canvas2d \<Rightarrow> canvas2d" where
  "lineTo p c =
     (if path c = [] then c\<lparr>path := [[p]]\<rparr>
      else c\<lparr>path := butlast (path c) @ [last (path c) @ [p]]\<rparr>)"

definition stroke :: "rasteriser \<Rightarrow> canvas2d \<Rightarrow> canvas2d" where
  "stroke R c =
     c\<lparr>bitmap := (\<lambda>x y. if x < width c \<and> y < height c
                          then R (dstate c) (path c) (bitmap c) x y else bitmap c x y)\<rparr>"

section \<open>DrawingManager\<close>

text \<open>
  The fields of the class that its methods read or write.  The overlay canvas only shows
  feedback (hand skeleton, cursor); nothing is ever read back from it, and it is left out.
  \<open>smoothingWindowSize\<close> is assigned once, in the constructor.
\<close>

record DrawingManager =
  canvas :: canvas2d
  lastPoint :: "point option"
  drawing :: bool
  undoStack :: "ImageData list"
  points :: "point list"
  handSmoothing :: "point list"
  currentColor :: string
  currentSize :: real
  isMirrored :: bool

definition smoothingWindowSize :: nat where
  "smoothingWindowSize = 5"

definition new_DrawingManager :: "canvas2d \<Rightarrow> DrawingManager" where
  "new_DrawingManager c =
     \<lparr>canvas = c, lastPoint = None, drawing = False, undoStack = [], points = [],
      handSmoothing = [], currentColor = ''#5eead4'', currentSize = 6, isMirrored = False\<rparr>"


subsection \<open>resizeCanvases\<close>

text \<open>
  \<open>w\<close> and \<open>h\<close> are the stage's width and height as the canvas stores them.  The snapshot
  is taken first, so when it throws nothing has been resized.
\<close>

definition resizeCanvases :: "nat \<Rightarrow> nat \<Rightarrow> DrawingManager \<Rightarrow> DrawingManager outcome" where
  "resizeCanvases w h st =
     (case getImageData (width (canvas st)) (height (canvas st)) (canvas st) of
        Inl e \<Rightarrow> Thrown e st
      | Inr imageData \<Rightarrow>
          Done (st\<lparr>canvas := putImageData imageData (set_height h (set_width w (canvas st)))\<rparr>))"

subsection \<open>smoothPoint\<close>

text \<open>The \<open>push\<close> and the conditional \<open>shift\<close>.\<close>

definition push_window :: "point \<Rightarrow> point list \<Rightarrow> point list" where
  "push_window rawPoint hs =
     (let hs1 = hs @ [rawPoint]
      in if length hs1 > smoothingWindowSize then tl hs1 else hs1)"

text \<open>The \<open>reduce\<close> from \<open>{x: 0, y: 0}\<close> and the two divisions by the length.\<close>

definition average :: "point list \<Rightarrow> point" where
  "average hs =
     (let avg = foldl (\<lambda>acc pt. (double_add (fst acc) (fst pt), double_add (snd acc) (snd pt)))
                  (0, 0) hs
      in (double_div (fst avg) (real (length hs)), double_div (snd avg) (real (length hs))))"

definition smoothPoint :: "point \<Rightarrow> DrawingManager \<Rightarrow> point \<times> DrawingManager" where
  "smoothPoint rawPoint st =
     (let hs = push_window rawPoint (handSmoothing st)
      in (average hs, st\<lparr>handSmoothing := hs\<rparr>))"

subsection \<open>drawLine\<close>

text \<open>
  \<open>from\<close> may be \<open>null\<close> (the value of \<open>lastPoint\<close> outside a stroke): then \<open>from.x\<close> throws
  a \<open>TypeError\<close> after \<open>save\<close>, the three assignments and \<open>beginPath\<close>.
\<close>

definition drawLine ::
  "rasteriser \<Rightarrow> point option \<Rightarrow> point \<Rightarrow> string \<Rightarrow> real \<Rightarrow> canvas2d \<Rightarrow> canvas2d outcome" where
  "drawLine R from to color sz c =
     (let c1 = beginPath (set_lineCap ''round'' (set_lineWidth sz (set_strokeStyle color (save c))))
      in case from of
           None \<Rightarrow> Thrown TypeError c1
         | Some f \<Rightarrow> Done (restore (stroke R (lineTo to (moveTo f c1)))))"

subsection \<open>onResults\<close>

text \<open>\<open>hypot\<close> is the engine's \<open>Math.hypot\<close>; the literal \<open>0.15\<close> denotes the nearest double.\<close>

definition pinchDistance :: "(real \<Rightarrow> real \<Rightarrow> real) \<Rightarrow> hand \<Rightarrow> real" where
  "pinchDistance hypot landmarks =
     (let thumbTip = landmarks ! 4; indexTip = landmarks ! 8
      in hypot (double_sub (fst thumbTip) (fst indexTip))
               (double_sub (snd thumbTip) (snd indexTip)))"

definition threshold :: "(real \<Rightarrow> real \<Rightarrow> real) \<Rightarrow> hand \<Rightarrow> real" where
  "threshold hypot landmarks =
     (let indexTip = landmarks ! 8;
          wristToIndex = hypot (double_sub (fst (landmarks ! 0)) (fst indexTip))
                               (double_sub (snd (landmarks ! 0)) (snd indexTip))
      in double_mul wristToIndex (to_double 0.15))"

text \<open>
  The mapping of the index tip to canvas pixels; \<open>mirror\<close> is the state of the checkbox
  with id \<open>mirror\<close>, \<open>mirrored\<close> the field \<open>isMirrored\<close>.
\<close>

definition rawPoint :: "bool \<Rightarrow> bool \<Rightarrow> nat \<Rightarrow> nat \<Rightarrow> landmark \<Rightarrow> point" where
  "rawPoint mirror mirrored w h indexTip =
     (let xNorm = (if mirror then double_sub 1 (fst indexTip) else fst indexTip);
          xNorm = (if mirrored then double_sub 1 xNorm else xNorm)
      in (double_mul xNorm (real w), double_mul (snd indexTip) (real h)))"

text \<open>
  The body of the loop over the hands.  A hand with fewer than nine landmarks makes
  \<open>thumbTip.x\<close> or \<open>indexTip.x\<close> throw before anything is changed.  At the start of a
  stroke the three fields are assigned before \<open>getImageData\<close> runs.
\<close>

definition onHand :: "engine \<Rightarrow> bool \<Rightarrow> hand \<Rightarrow> DrawingManager \<Rightarrow> DrawingManager outcome" where
  "onHand E mirror landmarks st =
     (if length landmarks \<le> 8 then Thrown TypeError st
      else
        let raw = rawPoint mirror (isMirrored st) (width (canvas st)) (height (canvas st))
                    (landmarks ! 8);
            (point, st1) = smoothPoint raw st
        in if pinchDistance (math_hypot E) landmarks < threshold (math_hypot E) landmarks then
             if \<not> drawing st1 then
               let st2 = st1\<lparr>drawing := True, lastPoint := Some point, points := [point]\<rparr>
               in case getImageData (width (canvas st2)) (height (canvas st2)) (canvas st2) of
                    Inl e \<Rightarrow> Thrown e st2
                  | Inr snapshot \<Rightarrow> Done (st2\<lparr>undoStack := undoStack st2 @ [snapshot]\<rparr>)
             else
               case drawLine (rasterise E) (lastPoint st1) point (currentColor st1)
                      (currentSize st1) (canvas st1) of
                 Thrown e c \<Rightarrow> Thrown e (st1\<lparr>canvas := c\<rparr>)
               | Done c \<Rightarrow>
                   Done (st1\<lparr>canvas := c, lastPoint := Some point, points := points st1 @ [point]\<rparr>)
           else Done (st1\<lparr>drawing := False, lastPoint := None, points := []\<rparr>))"

fun onHands ::
  "engine \<Rightarrow> bool \<Rightarrow> hand list \<Rightarrow> DrawingManager \<Rightarrow> DrawingManager outcome" where
  "onHands E mirror [] st = Done st"
| "onHands E mirror (landmarks # rest) st =
     (case onHand E mirror landmarks st of
        Done st' \<Rightarrow> onHands E mirror rest st'
      | Thrown e st' \<Rightarrow> Thrown e st')"

text \<open>\<open>multiHandLandmarks\<close> may be undefined (\<open>None\<close>); then the loop runs over \<open>[]\<close>.\<close>

definition onResults ::
  "engine \<Rightarrow> bool \<Rightarrow> hand list option \<Rightarrow> DrawingManager \<Rightarrow> DrawingManager outcome" where
  "onResults E mirror multiHandLandmarks st =
     (let handsLms = (case multiHandLandmarks of None \<Rightarrow> [] | Some hs \<Rightarrow> hs)
      in onHands E mirror handsLms st)"

subsection \<open>undo and clear\<close>

definition undo :: "DrawingManager \<Rightarrow> DrawingManager" where
  "undo st =
     (if length (undoStack st) > 0 then
        let imageData = last (undoStack st)
        in st\<lparr>undoStack := butlast (undoStack st), canvas := putImageData imageData (canvas st)\<rparr>
      else st)"


subsection \<open>Pointer listeners\<close>

text \<open>
  \<open>init\<close> registers five listeners on the overlay.  Each one calls a method of the
  manager by name: \<open>this.handlePointerDown(e)\<close>, \<open>this.handlePointerMove(e)\<close> and, for
  \<open>pointerup\<close>, \<open>pointercancel\<close> and \<open>pointerleave\<close>, \<open>this.handlePointerUp()\<close>.
\<close>

datatype pointer_event = pointerdown | pointermove | pointerup | pointercancel | pointerleave

fun listener_method :: "pointer_event \<Rightarrow> string" where
  "listener_method pointerdown = ''handlePointerDown''"
| "listener_method pointermove = ''handlePointerMove''"
| "listener_method pointerup = ''handlePointerUp''"
| "listener_method pointercancel = ''handlePointerUp''"
| "listener_method pointerleave = ''handlePointerUp''"

text \<open>The methods that the class body of \<open>DrawingManager\<close> defines, in source order.\<close>

definition DrawingManager_methods :: "string list" where
  "DrawingManager_methods =
     [''constructor'', ''init'', ''setMirror'', ''resizeCanvases'', ''setupHands'',
      ''onResults'', ''smoothPoint'', ''drawLine'', ''undo'', ''clear'']"

text \<open>
  Calling a method the object does not have throws a \<open>TypeError\<close> and changes nothing.
  \<open>body\<close> stands for what a defined method would do.
\<close>

definition pointer_listener ::
  "(string \<Rightarrow> point \<Rightarrow> DrawingManager \<Rightarrow> DrawingManager outcome) \<Rightarrow>
   pointer_event \<Rightarrow> point \<Rightarrow> DrawingManager \<Rightarrow> DrawingManager outcome" where
  "pointer_listener body ev pos st =
     (if listener_method ev \<in> set DrawingManager_methods
      then body (listener_method ev) pos st
      else Thrown TypeError st)"

subsection \<open>Frames\<close>

text \<open>
  The callback runs once per frame with the state of the mirror checkbox and the
  landmarks of that frame.  An exception ends that frame's callback only; the next frame
  starts from the state it left.
\<close>

type_synonym frame = "bool \<times> hand list option"

fun run_frames ::
  "engine \<Rightarrow> frame list \<Rightarrow> DrawingManager \<Rightarrow> js_error list \<times> DrawingManager" where
  "run_frames E [] st = ([], st)"
| "run_frames E (f # fs) st =
     (case onResults E (fst f) (snd f) st of
        Done st' \<Rightarrow> run_frames E fs st'
      | Thrown e st' \<Rightarrow> (let (es, st'') = run_frames E fs st' in (e # es, st'')))"

text \<open>The outputs of successive calls of \<open>smoothPoint\<close>, and the state after them.\<close>

fun smoothRun :: "point list \<Rightarrow> DrawingManager \<Rightarrow> point list \<times> DrawingManager" where
  "smoothRun [] st = ([], st)"
| "smoothRun (r # rs) st =
     (let (p, st1) = smoothPoint r st; (ps, st2) = smoothRun rs st1 in (p # ps, st2))"

section \<open>Notions of the specification\<close>

text \<open>The arithmetic mean of a list of points, in exact arithmetic.\<close>

definition arithmetic_mean :: "point list \<Rightarrow> point" where
  "arithmetic_mean ps =
     (sum_list (map fst ps) / real (length ps), sum_list (map snd ps) / real (length ps))"

text \<open>
  The mean in double arithmetic: each coordinate is summed from zero in list order, every
  addition rounded, and the sum is divided by the number of points, rounded again.
\<close>

definition double_mean :: "point list \<Rightarrow> point" where
  "double_mean ps =
     (double_div (foldl double_add 0 (map fst ps)) (real (length ps)),
      double_div (foldl double_add 0 (map snd ps)) (real (length ps)))"

text \<open>The \<open>k\<close> newest entries of a queue whose newest entry is its last.\<close>

definition newest :: "nat \<Rightarrow> 'a list \<Rightarrow> 'a list" where
  "newest k xs = drop (length xs - k) xs"

text \<open>Euclidean distance of two points, in exact arithmetic.\<close>

definition euclidean :: "point \<Rightarrow> point \<Rightarrow> real" where
  "euclidean p q = sqrt ((fst p - fst q)\<^sup>2 + (snd p - snd q)\<^sup>2)"

text \<open>
  The distance of two points as the program computes it: the engine's \<open>Math.hypot\<close> of the
  two rounded coordinate differences.
\<close>

definition double_distance :: "(real \<Rightarrow> real \<Rightarrow> real) \<Rightarrow> point \<Rightarrow> point \<Rightarrow> real" where
  "double_distance hypot p q =
     hypot (double_sub (fst p) (fst q)) (double_sub (snd p) (snd q))"

text \<open>An exact copy of a canvas's pixels.\<close>

definition raster_copy :: "canvas2d \<Rightarrow> ImageData" where
  "raster_copy c =
     \<lparr>img_width = width c, img_height = height c,
      img_data = (\<lambda>x y. if x < width c \<and> y < height c then bitmap c x y else transparent)\<rparr>"

section \<open>Auxiliary notions\<close>

text \<open>The drawing state with which \<open>drawLine\<close> strokes.\<close>

definition stroke_settings :: "string \<Rightarrow> real \<Rightarrow> canvas2d \<Rightarrow> drawing_state" where
  "stroke_settings col sz c =
     \<lparr>strokeStyle = col, lineWidth = (if 0 < sz then sz else lineWidth (dstate c)),
      lineCap = ''round''\<rparr>"

text \<open>A frame that shows one hand, and the raw canvas point of its index tip.\<close>

definition hand_frame :: "bool \<times> hand \<Rightarrow> frame" where
  "hand_frame g = (fst g, Some [snd g])"

definition frame_point :: "DrawingManager \<Rightarrow> bool \<times> hand \<Rightarrow> point" where
  "frame_point st g =
     rawPoint (fst g) (isMirrored st) (width (canvas st)) (height (canvas st)) (snd g ! 8)"

text \<open>Successive calls of \<open>drawLine\<close>, one per segment.\<close>

definition draw_segments ::
  "rasteriser \<Rightarrow> string \<Rightarrow> real \<Rightarrow> (point \<times> point) list \<Rightarrow> canvas2d \<Rightarrow> canvas2d" where
  "draw_segments R col sz segs c =
     foldl (\<lambda>c seg. state_of (drawLine R (Some (fst seg)) (snd seg) col sz c)) c segs"

text \<open>\<open>smoothRun\<close> on the buffer alone: the outputs and the final buffer.\<close>

fun smoothed :: "point list \<Rightarrow> point list \<Rightarrow> point list \<times> point list" where
  "smoothed hs [] = ([], hs)"
| "smoothed hs (r # rs) =
     (let hs1 = push_window r hs; (ps, hs2) = smoothed hs1 rs in (average hs1 # ps, hs2))"

section \<open>Concrete inputs\<close>

text \<open>
  A freshly created canvas, an opaque colour, and a rasteriser that inks the four pixels
  of the top left corner whenever the path is not empty.
\<close>

definition blank_canvas :: "nat \<Rightarrow> nat \<Rightarrow> canvas2d" where
  "blank_canvas w h =
     \<lparr>width = w, height = h, bitmap = (\<lambda>x y. transparent), dstate = default_drawing_state,
      path = [], saved = []\<rparr>"

definition ink :: rgba where
  "ink = (94, 234, 212, 255)"

definition blot_rasteriser :: rasteriser where
  "blot_rasteriser ds pth b = (\<lambda>x y. if pth \<noteq> [] \<and> x < 2 \<and> y < 2 then ink else b x y)"

text \<open>A rasteriser that counts the strokes in the red byte of pixel (0, 0).\<close>

definition tally_rasteriser :: rasteriser where
  "tally_rasteriser ds pth b =
     (\<lambda>x y. if x = 0 \<and> y = 0 then (fst (b 0 0) + 1, snd (b 0 0)) else b x y)"

text \<open>A \<open>Math.hypot\<close> that returns the double nearest to the exact value.\<close>

definition rounded_hypot :: "real \<Rightarrow> real \<Rightarrow> real" where
  "rounded_hypot a b = to_double (sqrt (a * a + b * b))"

definition demo_engine :: engine where
  "demo_engine = \<lparr>rasterise = blot_rasteriser, math_hypot = rounded_hypot\<rparr>"

definition tally_engine :: engine where
  "tally_engine = \<lparr>rasterise = tally_rasteriser, math_hypot = rounded_hypot\<rparr>"

text \<open>
  A hand of 21 landmarks with the wrist at \<open>(1/2, 1)\<close>, the index tip at \<open>(1/2, 1/2)\<close> and
  the thumb tip at \<open>(1/2, t)\<close>.  The wrist is \<open>1/2\<close> away from the index tip, so the
  threshold is half the double \<open>0.15\<close>, a little below \<open>0.075\<close>.
\<close>

definition demo_hand :: "real \<Rightarrow> hand" where
  "demo_hand t =
     [(1/2, 1), (1/2, 1), (1/2, 1), (1/2, 1), (1/2, t), (1/2, 1), (1/2, 1),
      (1/2, 1), (1/2, 1/2), (1/2, 1), (1/2, 1), (1/2, 1), (1/2, 1), (1/2, 1),
      (1/2, 1), (1/2, 1), (1/2, 1), (1/2, 1), (1/2, 1), (1/2, 1), (1/2, 1)]"

text \<open>
  A hand with the wrist at \<open>(0, 1)\<close>, the index tip at \<open>(0, 0)\<close> and the thumb tip at
  \<open>(0, d)\<close>, where \<open>d\<close> is the double that the literal \<open>0.15\<close> denotes.
\<close>

definition boundary_hand :: hand where
  "boundary_hand =
     [(0, 1), (0, 1), (0, 1), (0, 1), (0, 5404319552844595 / 36028797018963968), (0, 1),
      (0, 1), (0, 1), (0, 0), (0, 1), (0, 1), (0, 1), (0, 1), (0, 1),
      (0, 1), (0, 1), (0, 1), (0, 1), (0, 1), (0, 1), (0, 1)]"

definition two_frames :: "(bool \<times> hand) list" where
  "two_frames = [(False, demo_hand (9/16)), (False, demo_hand (17/32))]"

text \<open>The manager after two pinch frames on a fresh 300 by 150 canvas: a stroke in progress.\<close>

definition plain_stroke :: DrawingManager where
  "plain_stroke =
     snd (run_frames demo_engine (map hand_frame two_frames)
            (new_DrawingManager (blank_canvas 300 150)))"

text \<open>
  A stroke that starts on a 1 by 1 canvas, continues after the canvas has grown to 2 by 1,
  and ends with the release of the pinch.
\<close>

definition stroke_across_resize :: DrawingManager where
  "stroke_across_resize =
     (let s0 = new_DrawingManager (blank_canvas 1 1);
          s1 = state_of (onResults demo_engine False (Some [demo_hand (9/16)]) s0);
          s2 = state_of (resizeCanvases 2 1 s1);
          s3 = state_of (onResults demo_engine False (Some [demo_hand (9/16)]) s2)
      in state_of (onResults demo_engine False (Some [demo_hand (3/4)]) s3))"

text \<open>
  Two pinch frames and then a frame without a hand, on a fresh 300 by 150 canvas; and a
  second gesture of two pinch frames followed by a frame whose hand does not pinch.
\<close>

definition hand_lost :: DrawingManager where
  "hand_lost =
     snd (run_frames tally_engine (map hand_frame two_frames @ [(False, Some [])])
            (new_DrawingManager (blank_canvas 300 150)))"

definition second_gesture :: "frame list" where
  "second_gesture = map hand_frame two_frames"

definition release_frame :: frame where
  "release_frame = hand_frame (False, demo_hand (3/4))"

text \<open>The double that the literal \<open>0.3\<close> denotes, and the double nearest to \<open>0.023 * 300\<close>.\<close>

definition double_03 :: real where
  "double_03 = 5404319552844595 / 18014398509481984"

definition double_69 :: real where
  "double_69 = 7768709357214105 / 1125899906842624"

section \<open>Facts about rounding\<close>

lemma pow2_powr: "pow2 e = 2 powr (of_int e)"
  by (simp add: pow2_def powr_int)

lemma pow2_pos: "0 < pow2 e"
  by (simp add: pow2_powr)

lemma pow2_add: "pow2 (a + b) = pow2 a * pow2 b"
  by (simp add: pow2_powr powr_add)

lemma binade_eq:
  assumes "pow2 e \<le> \<bar>x\<bar>" and "\<bar>x\<bar> < pow2 (e + 1)"
  shows "binade x = e"
proof -
  have "0 < \<bar>x\<bar>" using assms(1) pow2_pos[of e] by linarith
  then show ?thesis
    unfolding binade_def using assms
    by (subst floor_log_eq_powr_iff) (simp_all add: pow2_powr)
qed

text \<open>Rounding a number whose binade is known.\<close>

lemma to_double_eval:
  assumes "pow2 e \<le> \<bar>x\<bar>" and "\<bar>x\<bar> < pow2 (e + 1)" and "- 1022 \<le> e"
  shows "to_double x = of_int (round_half_even (x / pow2 (e - 52))) * pow2 (e - 52)"
proof -
  have "0 < \<bar>x\<bar>" using assms(1) pow2_pos[of e] by linarith
  then have "x \<noteq> 0" by simp
  moreover have "max (binade x - 52) (- 1074) = e - 52"
    using binade_eq[OF assms(1,2)] assms(3) by simp
  ultimately show ?thesis by (simp add: to_double_def Let_def)
qed

lemma round_half_even_int: "round_half_even (of_int k) = k"
  by (simp add: round_half_even_def)

lemma to_double_zero: "to_double 0 = 0"
  by (simp add: to_double_def)

text \<open>A number with a significand below \<open>2\<^sup>5\<^sup>3\<close> is a double: rounding leaves it alone.\<close>

lemma to_double_exact:
  assumes k: "\<bar>k\<bar> < 2 ^ 53" and e: "- 1074 \<le> e"
  shows "to_double (of_int k * pow2 e) = of_int k * pow2 e"
proof (cases "k = 0")
  case True
  then show ?thesis by (simp add: to_double_def)
next
  case False
  let ?x = "of_int k * pow2 e :: real"
  have x0: "?x \<noteq> 0" using False pow2_pos[of e] by simp
  have "\<bar>of_int k :: real\<bar> < 2 ^ 53"
    using k by (metis of_int_abs of_int_less_numeral_power_cancel_iff)
  then have "\<bar>of_int k :: real\<bar> * pow2 e < 2 ^ 53 * pow2 e"
    using pow2_pos[of e] by (rule mult_strict_right_mono)
  moreover have "\<bar>?x\<bar> = \<bar>of_int k :: real\<bar> * pow2 e"
    using pow2_pos[of e] by (simp add: abs_mult)
  moreover have "(2::real) ^ 53 * pow2 e = pow2 (53 + e)"
    unfolding pow2_add by (simp add: pow2_def)
  moreover have "pow2 (53 + e) = 2 powr (of_int (e + 52) + 1)"
    by (simp add: pow2_powr add.commute)
  ultimately have absx: "\<bar>?x\<bar> < 2 powr (of_int (e + 52) + 1)"
    by simp
  have "log 2 \<bar>?x\<bar> < of_int (e + 52) + 1"
    using absx x0 by (subst log_less_iff) simp_all
  then have b: "binade ?x \<le> e + 52"
    unfolding binade_def by (simp only: floor_le_iff)
  define e' where "e' = max (binade ?x - 52) (- 1074)"
  have le: "e' \<le> e" using b e by (simp add: e'_def)
  have "pow2 e = pow2 (e - e') * pow2 e'"
    by (simp add: pow2_add[symmetric])
  moreover have "pow2 (e - e') = of_int (2 ^ nat (e - e'))"
    using le by (simp add: pow2_def)
  ultimately have split: "?x = of_int (k * 2 ^ nat (e - e')) * pow2 e'"
    by simp
  have "?x / pow2 e' = of_int (k * 2 ^ nat (e - e'))"
    by (subst split) (use pow2_pos[of e'] in simp)
  then have "round_half_even (?x / pow2 e') = k * 2 ^ nat (e - e')"
    by (simp only: round_half_even_int)
  then have "to_double ?x = of_int (k * 2 ^ nat (e - e')) * pow2 e'"
    using x0 by (simp add: to_double_def Let_def e'_def)
  also have "\<dots> = ?x" by (rule split[symmetric])
  finally show ?thesis .
qed

lemma to_double_int: "\<bar>k\<bar> < 2 ^ 53 \<Longrightarrow> to_double (of_int k) = of_int k"
  using to_double_exact[of k 0] by (simp add: pow2_def)

lemma pow2_neg: "pow2 (- int n) = 1 / 2 ^ n"
  by (simp add: pow2_powr powr_minus powr_realpow divide_inverse)

lemma to_double_dyadic:
  "\<bar>k\<bar> < 2 ^ 53 \<Longrightarrow> n \<le> 1074 \<Longrightarrow> to_double (of_int k / 2 ^ n) = of_int k / 2 ^ n"
  using to_double_exact[of k "- int n"] by (simp add: pow2_neg)

lemma to_double_numeral:
  "(numeral n :: int) < 2 ^ 53 \<Longrightarrow> to_double (numeral n) = numeral n"
  using to_double_int[of "numeral n"] by simp

lemma to_double_small:
  "to_double 1 = 1" "to_double (1/2) = 1/2" "to_double (1/4) = 1/4" "to_double (1/16) = 1/16"
  "to_double (1/32) = 1/32" "to_double (3/2) = 3/2" "to_double (3/4) = 3/4"
  "to_double (5/2) = 5/2" "to_double (7/2) = 7/2" "to_double (7/8) = 7/8"
  using to_double_int[of 1] to_double_dyadic[of 1 1] to_double_dyadic[of 1 2]
    to_double_dyadic[of 1 4] to_double_dyadic[of 1 5] to_double_dyadic[of 3 1]
    to_double_dyadic[of 3 2] to_double_dyadic[of 5 1] to_double_dyadic[of 7 1]
    to_double_dyadic[of 7 3]
  by simp_all

text \<open>Rounding moves a number below 2 in magnitude by at most \<open>2\<^sup>-\<^sup>5\<^sup>3\<close>.\<close>

lemma round_half_even_error: "\<bar>of_int (round_half_even q) - q\<bar> \<le> 1 / 2"
proof -
  let ?r = "q - of_int \<lfloor>q\<rfloor>"
  have r: "0 \<le> ?r" "?r < 1" by linarith+
  consider "?r < 1 / 2" | "1 / 2 < ?r" | "?r = 1 / 2" by linarith
  then show ?thesis
  proof cases
    case 1
    then have "round_half_even q = \<lfloor>q\<rfloor>" by (simp add: round_half_even_def)
    with r 1 show ?thesis by simp
  next
    case 2
    then have "round_half_even q = \<lfloor>q\<rfloor> + 1" by (simp add: round_half_even_def)
    with r 2 show ?thesis by simp
  next
    case 3
    then have "round_half_even q = \<lfloor>q\<rfloor> \<or> round_half_even q = \<lfloor>q\<rfloor> + 1"
      by (simp add: round_half_even_def Let_def)
    with 3 show ?thesis by auto
  qed
qed

lemma pow2_mono: "a \<le> b \<Longrightarrow> pow2 a \<le> pow2 b"
  by (simp add: pow2_powr)

lemma to_double_error:
  assumes "\<bar>x\<bar> < 2"
  shows "\<bar>to_double x - x\<bar> \<le> 1 / 2 ^ 53"
proof (cases "x = 0")
  case True
  then show ?thesis by (simp add: to_double_zero)
next
  case False
  define e where "e = max (binade x - 52) (- 1074)"
  have "log 2 \<bar>x\<bar> < 1"
    using assms False by (subst log_less_iff) simp_all
  then have "binade x \<le> 0"
    unfolding binade_def by (simp add: floor_le_iff)
  then have "e \<le> - 52" by (simp add: e_def)
  then have p: "pow2 e \<le> 1 / 2 ^ 52"
    using pow2_mono[of e "- 52"] pow2_neg[of 52] by simp
  have "to_double x - x = (of_int (round_half_even (x / pow2 e)) - x / pow2 e) * pow2 e"
    using False pow2_pos[of e] by (simp add: to_double_def Let_def e_def algebra_simps)
  then have "\<bar>to_double x - x\<bar>
               = \<bar>of_int (round_half_even (x / pow2 e)) - x / pow2 e\<bar> * pow2 e"
    using pow2_pos[of e] by (simp add: abs_mult)
  also have "\<dots> \<le> 1 / 2 * pow2 e"
    using round_half_even_error[of "x / pow2 e"] pow2_pos[of e]
    by (intro mult_right_mono) simp_all
  also have "\<dots> \<le> 1 / 2 * (1 / 2 ^ 52)"
    using p by simp
  finally show ?thesis by simp
qed

lemma to_double_015: "to_double (3/20) = 5404319552844595 / 36028797018963968"
  by (subst to_double_eval[of "- 3"]) (simp_all add: pow2_def round_half_even_def)

section \<open>Basic facts\<close>

lemma fresh_fields:
  "\<not> drawing (new_DrawingManager c)" "canvas (new_DrawingManager c) = c"
  "undoStack (new_DrawingManager c) = []" "handSmoothing (new_DrawingManager c) = []"
  "isMirrored (new_DrawingManager c) = False" "lastPoint (new_DrawingManager c) = None"
  "points (new_DrawingManager c) = []"
  by (simp_all add: new_DrawingManager_def)

lemma blank_fields:
  "width (blank_canvas w h) = w" "height (blank_canvas w h) = h"
  "bitmap (blank_canvas w h) x y = transparent" "path (blank_canvas w h) = []"
  by (simp_all add: blank_canvas_def)

lemma ink_visible: "ink \<noteq> transparent"
  by (simp add: ink_def transparent_def)

lemma engine_fields:
  "rasterise demo_engine = blot_rasteriser" "math_hypot demo_engine = rounded_hypot"
  "rasterise tally_engine = tally_rasteriser" "math_hypot tally_engine = rounded_hypot"
  by (simp_all add: demo_engine_def tally_engine_def)

lemma rounded_hypot_zero: "rounded_hypot 0 b = to_double \<bar>b\<bar>"
  by (simp add: rounded_hypot_def)

lemma euclidean_vertical: "euclidean (a, b) (a, c) = \<bar>b - c\<bar>"
  by (simp add: euclidean_def)

lemma demo_hand_fields:
  "length (demo_hand t) = 21" "demo_hand t ! 8 = (1/2, 1/2)"
  "threshold rounded_hypot (demo_hand t) = 5404319552844595 / 72057594037927936"
  "pinchDistance rounded_hypot (demo_hand (9/16)) = 1/16"
  "pinchDistance rounded_hypot (demo_hand (17/32)) = 1/32"
  "pinchDistance rounded_hypot (demo_hand (3/4)) = 1/4"
proof -
  have h: "to_double (5404319552844595 / 72057594037927936)
             = 5404319552844595 / 72057594037927936"
    using to_double_dyadic[of 5404319552844595 56] by simp
  show "length (demo_hand t) = 21" "demo_hand t ! 8 = (1/2, 1/2)"
    by (simp_all add: demo_hand_def)
  show "threshold rounded_hypot (demo_hand t) = 5404319552844595 / 72057594037927936"
    by (simp add: demo_hand_def threshold_def double_sub_def double_mul_def rounded_hypot_zero
          to_double_zero to_double_small to_double_015 h)
  show "pinchDistance rounded_hypot (demo_hand (9/16)) = 1/16"
    "pinchDistance rounded_hypot (demo_hand (17/32)) = 1/32"
    "pinchDistance rounded_hypot (demo_hand (3/4)) = 1/4"
    by (simp_all add: demo_hand_def pinchDistance_def double_sub_def rounded_hypot_zero
          to_double_zero to_double_small)
qed

section \<open>Coordinate mapping\<close>

lemma double_03_steps:
  "double_sub 1 double_03 = 3152519739159347 / 4503599627370496"
  "double_sub 1 (3152519739159347 / 4503599627370496) = 1351079888211149 / 4503599627370496"
  "double_mul (1351079888211149 / 4503599627370496) 300 = 6333186975989761 / 70368744177664"
  "double_mul double_03 300 = 90"
proof -
  show "double_sub 1 double_03 = 3152519739159347 / 4503599627370496"
    unfolding double_sub_def double_03_def
    by (subst to_double_eval[of "- 1"]) (simp_all add: pow2_def round_half_even_def)
  show "double_sub 1 (3152519739159347 / 4503599627370496)
          = 1351079888211149 / 4503599627370496"
    unfolding double_sub_def
    by (subst to_double_eval[of "- 2"]) (simp_all add: pow2_def round_half_even_def)
  show "double_mul (1351079888211149 / 4503599627370496) 300
          = 6333186975989761 / 70368744177664"
    unfolding double_mul_def
    by (subst to_double_eval[of 6]) (simp_all add: pow2_def round_half_even_def)
  show "double_mul double_03 300 = 90"
    unfolding double_mul_def double_03_def
    by (subst to_double_eval[of 6]) (simp_all add: pow2_def round_half_even_def)
qed

lemma double_reflection_twice:
  assumes "0 \<le> x" and "x \<le> 1"
  shows "\<bar>double_sub 1 (double_sub 1 x) - x\<bar> \<le> 1 / 2 ^ 52"
proof -
  let ?a = "double_sub 1 x"
  have a: "\<bar>?a - (1 - x)\<bar> \<le> 1 / 2 ^ 53"
    unfolding double_sub_def using assms by (intro to_double_error) simp
  then have "\<bar>1 - ?a\<bar> < 2" using assms by (simp add: abs_if split: if_splits)
  then have b: "\<bar>double_sub 1 ?a - (1 - ?a)\<bar> \<le> 1 / 2 ^ 53"
    unfolding double_sub_def by (rule to_double_error)
  from a b show ?thesis by (simp add: abs_if split: if_splits)
qed

text \<open>
  C5.  For every normalised index-tip position \<open>(x, y)\<close> and every setting of the two
  mirror flags, in double arithmetic: pixel y is the rounded product of \<open>y\<close> and the
  height; pixel x is the rounded product of the width and \<open>x\<close> when both flags are clear,
  the rounded \<open>1 - x\<close> when exactly one flag is set, and the twice reflected and twice
  rounded \<open>1 - (1 - x)\<close> when both are set.  For \<open>x\<close> in the unit interval the twice
  reflected value is within \<open>2\<^sup>-\<^sup>5\<^sup>2\<close> of \<open>x\<close>: the two reflections cancel up to rounding.
\<close>

theorem rawPoint_mirror_flags:
  "rawPoint False False w h (x, y) = (double_mul x (real w), double_mul y (real h))
   \<and> rawPoint True False w h (x, y)
       = (double_mul (double_sub 1 x) (real w), double_mul y (real h))
   \<and> rawPoint False True w h (x, y)
       = (double_mul (double_sub 1 x) (real w), double_mul y (real h))
   \<and> rawPoint True True w h (x, y)
       = (double_mul (double_sub 1 (double_sub 1 x)) (real w), double_mul y (real h))
   \<and> (0 \<le> x \<and> x \<le> 1 \<longrightarrow> \<bar>double_sub 1 (double_sub 1 x) - x\<bar> \<le> 1 / 2 ^ 52)"
proof -
  have "0 \<le> x \<and> x \<le> 1 \<longrightarrow> \<bar>double_sub 1 (double_sub 1 x) - x\<bar> \<le> 1 / 2 ^ 52"
    using double_reflection_twice[of x] by blast
  then show ?thesis
    by (simp only: rawPoint_def Let_def fst_conv snd_conv if_True if_False simp_thms)
qed

theorem rawPoint_mirror_flags_witness:
  "0 \<le> double_03 \<and> double_03 \<le> 1
   \<and> rawPoint True True 300 150 (double_03, 1/2) = (6333186975989761 / 70368744177664, 75)
   \<and> rawPoint True False 300 150 (double_03, 1/2)
       = (double_mul (3152519739159347 / 4503599627370496) 300, 75)
   \<and> \<bar>double_sub 1 (double_sub 1 double_03) - double_03\<bar> \<le> 1 / 2 ^ 52"
proof -
  have r: "0 \<le> double_03" "double_03 \<le> 1" by (simp_all add: double_03_def)
  have y: "double_mul (1/2) (real (150::nat)) = 75"
    by (simp add: double_mul_def to_double_numeral)
  have c: "\<bar>double_sub 1 (double_sub 1 double_03) - double_03\<bar> \<le> 1 / 2 ^ 52"
    using rawPoint_mirror_flags[of 300 150 double_03 "1/2"] r by blast
  have "rawPoint True True 300 150 (double_03, 1/2)
          = (double_mul (double_sub 1 (double_sub 1 double_03)) (real (300::nat)),
             double_mul (1/2) (real (150::nat)))"
    "rawPoint True False 300 150 (double_03, 1/2)
          = (double_mul (double_sub 1 double_03) (real (300::nat)),
             double_mul (1/2) (real (150::nat)))"
    using rawPoint_mirror_flags[of 300 150 double_03 "1/2"] by blast+
  with r y c show ?thesis
    by (simp add: double_03_steps)
qed

text \<open>
  With both flags set, width 300 and \<open>x\<close> the double \<open>0.3\<close>, the mapped pixel x is
  \<open>90.00000000000001\<close>, which is neither the rounded product of \<open>x\<close> and the width (90)
  nor the exact one.
\<close>

theorem rawPoint_cancel_counterexample:
  "fst (rawPoint True True 300 150 (double_03, 1/2)) = 6333186975989761 / 70368744177664
   \<and> double_mul double_03 300 = 90
   \<and> fst (rawPoint True True 300 150 (double_03, 1/2)) \<noteq> double_mul double_03 300
   \<and> fst (rawPoint True True 300 150 (double_03, 1/2)) \<noteq> double_03 * 300"
  by (simp add: rawPoint_def double_03_steps) (simp add: double_03_def)

section \<open>Point smoothing\<close>

lemma foldl_double_pairs:
  "foldl (\<lambda>acc pt. (double_add (fst acc) (fst pt), double_add (snd acc) (snd pt))) a hs
     = (foldl double_add (fst a) (map fst hs), foldl double_add (snd a) (map snd hs))"
  by (induction hs arbitrary: a) simp_all

lemma average_double_mean: "average hs = double_mean hs"
  by (simp add: average_def double_mean_def foldl_double_pairs)

lemma push_window_newest:
  "length hs \<le> 5 \<Longrightarrow> push_window r hs = newest 5 (hs @ [r])"
proof (cases "length hs = 5")
  case True
  have "tl (hs @ [r]) = drop (Suc 0) (hs @ [r])" by (cases "hs @ [r]") simp_all
  with True show ?thesis
    by (simp add: push_window_def newest_def smoothingWindowSize_def del: drop_append)
next
  case False
  assume "length hs \<le> 5"
  with False show ?thesis
    by (simp add: push_window_def newest_def smoothingWindowSize_def)
qed

lemma newest_append: "newest k (newest k xs @ ys) = newest k (xs @ ys)"
proof -
  have "length xs + length ys - (length xs - k + k) + (length xs - k) = length xs + length ys - k"
    by arith
  then show ?thesis by (simp add: newest_def)
qed

lemma length_newest: "length (newest k xs) \<le> k"
  by (simp add: newest_def)

lemma smoothRun_window:
  "length (handSmoothing st) \<le> 5 \<Longrightarrow>
   handSmoothing (snd (smoothRun rs st)) = newest 5 (handSmoothing st @ rs)"
proof (induction rs arbitrary: st)
  case Nil
  then show ?case by (simp add: newest_def)
next
  case (Cons r rs)
  let ?st1 = "snd (smoothPoint r st)"
  have w: "handSmoothing ?st1 = newest 5 (handSmoothing st @ [r])"
    using Cons.prems by (simp add: smoothPoint_def Let_def push_window_newest)
  then have "length (handSmoothing ?st1) \<le> 5" by (simp add: length_newest)
  from Cons.IH[OF this]
  have "handSmoothing (snd (smoothRun rs ?st1)) = newest 5 (handSmoothing st @ r # rs)"
    using w newest_append[of 5 "handSmoothing st @ [r]" rs] by simp
  then show ?case by (simp add: split_beta Let_def)
qed

lemma smoothRun_last:
  "rs \<noteq> [] \<Longrightarrow> last (fst (smoothRun rs st)) = average (handSmoothing (snd (smoothRun rs st)))"
proof (induction rs arbitrary: st)
  case Nil
  then show ?case by simp
next
  case (Cons r rs)
  show ?case
  proof (cases "rs = []")
    case True
    then show ?thesis by (simp add: smoothPoint_def Let_def)
  next
    case False
    then have "fst (smoothRun rs (snd (smoothPoint r st))) \<noteq> []"
      by (cases rs) (simp_all add: split_beta Let_def)
    with Cons.IH[OF False, of "snd (smoothPoint r st)"] show ?thesis
      by (simp add: split_beta Let_def)
  qed
qed

lemma newest_replicate: "5 \<le> n \<Longrightarrow> newest 5 (xs @ replicate n p) = replicate 5 p"
  by (simp add: newest_def)

lemma smoothRun_stationary:
  assumes "length (handSmoothing st) \<le> 5" and "5 \<le> n"
  shows "last (fst (smoothRun (pre @ replicate n p) st)) = double_mean (replicate 5 p)"
proof -
  from assms(2) have ne: "pre @ replicate n p \<noteq> []" by auto
  have "handSmoothing (snd (smoothRun (pre @ replicate n p) st)) = replicate 5 p"
    using smoothRun_window[OF assms(1), of "pre @ replicate n p"]
          newest_replicate[OF assms(2), of "handSmoothing st @ pre" p] by simp
  with smoothRun_last[OF ne, of st] show ?thesis
    by (simp add: average_double_mean)
qed

text \<open>Five copies of an integer below \<open>2\<^sup>5\<^sup>0\<close> in magnitude are summed and divided exactly.\<close>

lemma double_add_int:
  "\<bar>a + b\<bar> < 2 ^ 53 \<Longrightarrow> double_add (of_int a) (of_int b) = of_int (a + b)"
  using to_double_int[of "a + b"] by (simp add: double_add_def)

lemma five_copies_int:
  assumes "\<bar>i\<bar> \<le> 2 ^ 50"
  shows "double_div (foldl double_add 0 (replicate 5 (of_int i))) 5 = of_int i"
proof -
  have b: "\<bar>0 + i\<bar> < 2 ^ 53" "\<bar>i + i\<bar> < 2 ^ 53" "\<bar>2 * i + i\<bar> < 2 ^ 53"
    "\<bar>3 * i + i\<bar> < 2 ^ 53" "\<bar>4 * i + i\<bar> < 2 ^ 53" "\<bar>i\<bar> < 2 ^ 53"
    using assms by simp_all
  have r: "replicate 5 (of_int i :: real) = [of_int i, of_int i, of_int i, of_int i, of_int i]"
    by (simp add: numeral_eq_Suc)
  have s1: "double_add 0 (of_int i) = of_int i"
    using double_add_int[OF b(1)] by simp
  have s2: "double_add (of_int i) (of_int i) = of_int (2 * i)"
    using double_add_int[OF b(2)] by simp
  have s3: "double_add (of_int (2 * i)) (of_int i) = of_int (3 * i)"
    using double_add_int[OF b(3)] by simp
  have s4: "double_add (of_int (3 * i)) (of_int i) = of_int (4 * i)"
    using double_add_int[OF b(4)] by simp
  have s5: "double_add (of_int (4 * i)) (of_int i) = of_int (5 * i)"
    using double_add_int[OF b(5)] by simp
  have "foldl double_add 0 (replicate 5 (of_int i)) = of_int (5 * i)"
    unfolding r by (simp only: foldl.simps s1 s2 s3 s4 s5)
  then show ?thesis
    using to_double_int[OF b(6)] by (simp add: double_div_def)
qed

lemma double_mean_five_int:
  assumes "\<bar>i\<bar> \<le> 2 ^ 50" and "\<bar>j\<bar> \<le> 2 ^ 50"
  shows "double_mean (replicate 5 (of_int i, of_int j)) = (of_int i, of_int j)"
  using five_copies_int[OF assms(1)] five_copies_int[OF assms(2)]
  by (simp add: double_mean_def)

text \<open>Five copies of the double \<open>6.8999999999999995\<close> average to the double \<open>6.9\<close>.\<close>

lemma double_69_steps:
  "double_add 0 double_69 = double_69"
  "double_add double_69 double_69 = 7768709357214105 / 562949953421312"
  "double_add (7768709357214105 / 562949953421312) double_69
     = 5826532017910579 / 281474976710656"
  "double_add (5826532017910579 / 281474976710656) double_69
     = 7768709357214105 / 281474976710656"
  "double_add (7768709357214105 / 281474976710656) double_69 = 69 / 2"
  "double_div (69 / 2) 5 = 3884354678607053 / 562949953421312"
proof -
  show "double_add 0 double_69 = double_69"
    unfolding double_add_def double_69_def
    using to_double_dyadic[of 7768709357214105 50] by simp
  show "double_add double_69 double_69 = 7768709357214105 / 562949953421312"
    unfolding double_add_def double_69_def
    using to_double_dyadic[of 7768709357214105 49] by simp
  show "double_add (7768709357214105 / 562949953421312) double_69
          = 5826532017910579 / 281474976710656"
    unfolding double_add_def double_69_def
    by (subst to_double_eval[of 4]) (simp_all add: pow2_def round_half_even_def)
  show "double_add (5826532017910579 / 281474976710656) double_69
          = 7768709357214105 / 281474976710656"
    unfolding double_add_def double_69_def
    by (subst to_double_eval[of 4]) (simp_all add: pow2_def round_half_even_def)
  show "double_add (7768709357214105 / 281474976710656) double_69 = 69 / 2"
    unfolding double_add_def double_69_def
    by (subst to_double_eval[of 5]) (simp_all add: pow2_def round_half_even_def)
  show "double_div (69 / 2) 5 = 3884354678607053 / 562949953421312"
    unfolding double_div_def
    by (subst to_double_eval[of 2]) (simp_all add: pow2_def round_half_even_def)
qed

lemma double_mean_five_69:
  "double_mean (replicate 5 (double_69, double_69))
     = (3884354678607053 / 562949953421312, 3884354678607053 / 562949953421312)"
proof -
  have r: "replicate 5 (double_69, double_69)
             = [(double_69, double_69), (double_69, double_69), (double_69, double_69),
                (double_69, double_69), (double_69, double_69)]"
    by (simp add: numeral_eq_Suc)
  show ?thesis
    unfolding r double_mean_def
    by (simp add: double_69_steps)
qed

text \<open>
  C6.  From a buffer of at most 5 entries (it starts empty), one call of \<open>smoothPoint\<close>
  leaves the 5 newest of the old entries followed by the new point, hence at most 5
  entries, and returns the mean of the entries then buffered as double arithmetic gives
  it.  After any run of calls that ends with 5 or more calls on the same point \<open>p\<close>, the
  last output is the double mean of five copies of \<open>p\<close>, whatever came before; it is \<open>p\<close>
  itself when both coordinates of \<open>p\<close> are integers of magnitude at most \<open>2\<^sup>5\<^sup>0\<close>.
\<close>

theorem smoothPoint_fifo_mean:
  assumes "length (handSmoothing st) \<le> 5"
  shows "handSmoothing (snd (smoothPoint r st)) = newest 5 (handSmoothing st @ [r])
       \<and> length (handSmoothing (snd (smoothPoint r st))) \<le> 5
       \<and> fst (smoothPoint r st) = double_mean (handSmoothing (snd (smoothPoint r st)))
       \<and> (5 \<le> n \<longrightarrow>
            last (fst (smoothRun (pre @ replicate n p) st)) = double_mean (replicate 5 p))
       \<and> (5 \<le> n \<and> \<bar>i\<bar> \<le> 2 ^ 50 \<and> \<bar>j\<bar> \<le> 2 ^ 50 \<longrightarrow>
            last (fst (smoothRun (pre @ replicate n (of_int i, of_int j)) st))
              = (of_int i, of_int j))"
proof -
  let ?st1 = "snd (smoothPoint r st)"
  have a: "handSmoothing ?st1 = newest 5 (handSmoothing st @ [r])"
    using assms by (simp add: smoothPoint_def Let_def push_window_newest)
  have b: "length (handSmoothing ?st1) \<le> 5"
    unfolding a by (rule length_newest)
  have c: "fst (smoothPoint r st) = double_mean (handSmoothing ?st1)"
    by (simp add: smoothPoint_def Let_def average_double_mean)
  have d: "last (fst (smoothRun (pre @ replicate n p) st)) = double_mean (replicate 5 p)"
    if "5 \<le> n"
    using smoothRun_stationary[OF assms that] .
  have e: "last (fst (smoothRun (pre @ replicate n (of_int i, of_int j)) st))
             = (of_int i, of_int j)"
    if "5 \<le> n" "\<bar>i\<bar> \<le> 2 ^ 50" "\<bar>j\<bar> \<le> 2 ^ 50"
    using smoothRun_stationary[OF assms that(1)] double_mean_five_int[OF that(2,3)] by simp
  from a b c d e show ?thesis by blast
qed

theorem smoothPoint_fifo_mean_witness:
  "length (handSmoothing (new_DrawingManager (blank_canvas 300 150))) \<le> 5
   \<and> handSmoothing (snd (smoothPoint (1, 2) (new_DrawingManager (blank_canvas 300 150))))
       = newest 5 ([] @ [(1, 2)])
   \<and> (5::nat) \<le> 6 \<and> \<bar>3::int\<bar> \<le> 2 ^ 50 \<and> \<bar>4::int\<bar> \<le> 2 ^ 50
   \<and> last (fst (smoothRun ([(7, 9)] @ replicate 6 (double_69, double_69))
                  (new_DrawingManager (blank_canvas 300 150))))
       = (3884354678607053 / 562949953421312, 3884354678607053 / 562949953421312)
   \<and> last (fst (smoothRun ([(7, 9)] @ replicate 6 (of_int 3, of_int 4))
                  (new_DrawingManager (blank_canvas 300 150)))) = (of_int 3, of_int 4)"
proof -
  let ?st = "new_DrawingManager (blank_canvas 300 150)"
  have h: "length (handSmoothing ?st) \<le> 5"
    by (simp add: new_DrawingManager_def)
  have n: "(5::nat) \<le> 6" "\<bar>3::int\<bar> \<le> 2 ^ 50" "\<bar>4::int\<bar> \<le> 2 ^ 50" by simp_all
  from smoothPoint_fifo_mean[OF h, of "(1, 2)" 6 "[(7, 9)]" "(double_69, double_69)" 3 4] h n
  show ?thesis
    by (simp add: new_DrawingManager_def double_mean_five_69)
qed

text \<open>
  After five calls on the point whose coordinates are the double \<open>6.8999999999999995\<close>
  the buffer holds five copies of it, their arithmetic mean is the point, and the output
  is the double \<open>6.9\<close>.
\<close>

theorem smoothPoint_exact_counterexample:
  "last (fst (smoothRun (replicate 5 (double_69, double_69))
                (new_DrawingManager (blank_canvas 300 150))))
     = (3884354678607053 / 562949953421312, 3884354678607053 / 562949953421312)
   \<and> handSmoothing (snd (smoothRun (replicate 5 (double_69, double_69))
                (new_DrawingManager (blank_canvas 300 150))))
     = replicate 5 (double_69, double_69)
   \<and> arithmetic_mean (replicate 5 (double_69, double_69)) = (double_69, double_69)
   \<and> (3884354678607053 / 562949953421312, 3884354678607053 / 562949953421312)
     \<noteq> (double_69, double_69)"
proof -
  let ?st = "new_DrawingManager (blank_canvas 300 150)"
  have h: "length (handSmoothing ?st) \<le> 5"
    by (simp add: new_DrawingManager_def)
  have "last (fst (smoothRun ([] @ replicate 5 (double_69, double_69)) ?st))
          = double_mean (replicate 5 (double_69, double_69))"
    using h by (rule smoothRun_stationary) simp
  moreover have "handSmoothing (snd (smoothRun (replicate 5 (double_69, double_69)) ?st))
          = replicate 5 (double_69, double_69)"
    using smoothRun_window[OF h, of "replicate 5 (double_69, double_69)"]
    by (simp add: fresh_fields newest_def)
  moreover have "arithmetic_mean (replicate 5 (double_69, double_69)) = (double_69, double_69)"
    by (simp add: arithmetic_mean_def sum_list_replicate)
  ultimately show ?thesis
    by (simp add: double_mean_five_69) (simp add: double_69_def)
qed

lemma smoothPoint_eq:
  "smoothPoint r st =
     (average (push_window r (handSmoothing st)),
      st\<lparr>handSmoothing := push_window r (handSmoothing st)\<rparr>)"
  by (simp add: smoothPoint_def Let_def)

lemma smoothRun_smoothed:
  "smoothRun rs st = (fst (smoothed (handSmoothing st) rs),
                      st\<lparr>handSmoothing := snd (smoothed (handSmoothing st) rs)\<rparr>)"
  by (induction rs arbitrary: st) (simp_all add: smoothPoint_eq split_beta Let_def)

lemma length_smoothed: "length (fst (smoothed hs rs)) = length rs"
  by (induction rs arbitrary: hs) (simp_all add: split_beta Let_def)

section \<open>Drawing a line\<close>

lemma set_lineWidth_fields:
  "dstate (set_lineWidth sz c)
     = (dstate c)\<lparr>lineWidth := (if 0 < sz then sz else lineWidth (dstate c))\<rparr>"
  "saved (set_lineWidth sz c) = saved c" "path (set_lineWidth sz c) = path c"
  "bitmap (set_lineWidth sz c) = bitmap c" "width (set_lineWidth sz c) = width c"
  "height (set_lineWidth sz c) = height c"
  by (simp_all add: set_lineWidth_def)

lemma drawLine_prepare:
  "beginPath (set_lineCap ''round'' (set_lineWidth sz (set_strokeStyle col (save c))))
     = c\<lparr>dstate := stroke_settings col sz c, path := [], saved := dstate c # saved c\<rparr>"
  by (rule canvas2d.equality)
     (simp_all add: beginPath_def set_lineCap_def set_lineWidth_fields set_strokeStyle_def
        save_def stroke_settings_def split del: if_split cong: if_cong)

lemma drawLine_Some:
  "drawLine R (Some f) t col sz c =
     Done (c\<lparr>bitmap := (\<lambda>x y. if x < width c \<and> y < height c
                              then R (stroke_settings col sz c) [[f, t]] (bitmap c) x y
                              else bitmap c x y),
             path := [[f, t]]\<rparr>)"
  unfolding drawLine_def Let_def drawLine_prepare
  by (simp add: moveTo_def lineTo_def stroke_def restore_def cong: if_cong)

lemma drawLine_dims:
  "width (state_of (drawLine R (Some f) t col sz c)) = width c"
  "height (state_of (drawLine R (Some f) t col sz c)) = height c"
  by (simp_all add: drawLine_Some)

lemma draw_segments_dims:
  "width (draw_segments R col sz segs c) = width c"
  "height (draw_segments R col sz segs c) = height c"
  by (induction segs arbitrary: c) (simp_all add: draw_segments_def drawLine_dims)

text \<open>
  C10.  For every pair of points, colour and width, \<open>drawLine\<close> returns, and the canvas it
  leaves differs from the one it found in two fields only.  The bitmap has the one segment
  from the first point to the second stroked into it, with the given colour, a round cap
  and the given width (the width the context had, when the given one is not positive).
  The current path is that segment.  The drawing state (\<open>strokeStyle\<close>, \<open>lineWidth\<close>,
  \<open>lineCap\<close>), the stack of saved states and the dimensions are as before the call.
\<close>

theorem drawLine_effect:
  "drawLine R (Some f) t col sz c =
     Done (c\<lparr>bitmap := (\<lambda>x y. if x < width c \<and> y < height c
                              then R \<lparr>strokeStyle = col,
                                      lineWidth = (if 0 < sz then sz else lineWidth (dstate c)),
                                      lineCap = ''round''\<rparr> [[f, t]] (bitmap c) x y
                              else bitmap c x y),
             path := [[f, t]]\<rparr>)"
  unfolding drawLine_Some stroke_settings_def ..

text \<open>
  On a fresh canvas the current path is empty before the call and holds the segment
  after it: the stroke on the bitmap is not the only effect.
\<close>

theorem drawLine_path_counterexample:
  "path (blank_canvas 300 150) = []
   \<and> path (state_of (drawLine blot_rasteriser (Some (0, 0)) (10, 10) ''#5eead4'' 6
                       (blank_canvas 300 150))) = [[(0, 0), (10, 10)]]"
  by (simp add: drawLine_Some blank_fields)

section \<open>One hand in one frame\<close>

lemma getImageData_own:
  "0 < width c \<Longrightarrow> 0 < height c \<Longrightarrow>
   getImageData (width c) (height c) c = Inr (raster_copy c)"
  by (auto simp: getImageData_def raster_copy_def fun_eq_iff)

lemma pinch_iff:
  "pinchDistance H lms < threshold H lms
     \<longleftrightarrow> double_distance H (lms ! 4) (lms ! 8)
           < double_mul (double_distance H (lms ! 0) (lms ! 8)) (to_double 0.15)"
  by (simp add: pinchDistance_def threshold_def Let_def double_distance_def)

lemma onHand_release:
  "8 < length lms \<Longrightarrow>
   \<not> pinchDistance (math_hypot E) lms < threshold (math_hypot E) lms \<Longrightarrow>
   onHand E m lms st =
     Done (st\<lparr>handSmoothing := push_window (rawPoint m (isMirrored st) (width (canvas st))
                                   (height (canvas st)) (lms ! 8)) (handSmoothing st),
              drawing := False, lastPoint := None, points := []\<rparr>)"
  by (simp add: onHand_def Let_def smoothPoint_eq)

lemma onHand_start:
  "8 < length lms \<Longrightarrow> pinchDistance (math_hypot E) lms < threshold (math_hypot E) lms \<Longrightarrow>
   \<not> drawing st \<Longrightarrow> 0 < width (canvas st) \<Longrightarrow> 0 < height (canvas st) \<Longrightarrow>
   onHand E m lms st =
     (let hs = push_window (rawPoint m (isMirrored st) (width (canvas st))
                                   (height (canvas st)) (lms ! 8)) (handSmoothing st)
      in Done (st\<lparr>handSmoothing := hs, drawing := True, lastPoint := Some (average hs),
                 points := [average hs], undoStack := undoStack st @ [raster_copy (canvas st)]\<rparr>))"
  by (simp add: onHand_def Let_def smoothPoint_eq getImageData_own)


lemma onHand_continue:
  "8 < length lms \<Longrightarrow> pinchDistance (math_hypot E) lms < threshold (math_hypot E) lms \<Longrightarrow>
   drawing st \<Longrightarrow> lastPoint st = Some l \<Longrightarrow>
   onHand E m lms st =
     (let hs = push_window (rawPoint m (isMirrored st) (width (canvas st))
                                   (height (canvas st)) (lms ! 8)) (handSmoothing st)
      in Done (st\<lparr>handSmoothing := hs,
                 canvas := state_of (drawLine (rasterise E) (Some l) (average hs) (currentColor st)
                                        (currentSize st) (canvas st)),
                 lastPoint := Some (average hs), points := points st @ [average hs]\<rparr>))"
  by (simp add: onHand_def Let_def smoothPoint_eq drawLine_Some)

lemma onHand_drawing:
  "8 < length lms \<Longrightarrow>
   drawing (state_of (onHand E m lms st))
     \<longleftrightarrow> pinchDistance (math_hypot E) lms < threshold (math_hypot E) lms"
  by (simp add: onHand_def Let_def smoothPoint_eq getImageData_def drawLine_def
           split: option.splits)


lemma onResults_single: "onResults E m (Some [lms]) st = onHand E m lms st"
  by (cases "onHand E m lms st") (simp_all add: onResults_def)

lemma onResults_hand_frame:
  "onResults E (fst (hand_frame g)) (snd (hand_frame g)) st = onHand E (fst g) (snd g) st"
  by (simp add: hand_frame_def onResults_single)

section \<open>Pinch detection\<close>

lemma boundary_hand_fields:
  "length boundary_hand = 21"
  "boundary_hand ! 4 = (0, 5404319552844595 / 36028797018963968)"
  "boundary_hand ! 8 = (0, 0)" "boundary_hand ! 0 = (0, 1)"
  "pinchDistance rounded_hypot boundary_hand = 5404319552844595 / 36028797018963968"
  "threshold rounded_hypot boundary_hand = 5404319552844595 / 36028797018963968"
proof -
  have d: "to_double (5404319552844595 / 36028797018963968)
             = 5404319552844595 / 36028797018963968"
    using to_double_dyadic[of 5404319552844595 55] by simp
  show "length boundary_hand = 21"
    "boundary_hand ! 4 = (0, 5404319552844595 / 36028797018963968)"
    "boundary_hand ! 8 = (0, 0)" "boundary_hand ! 0 = (0, 1)"
    by (simp_all add: boundary_hand_def)
  show "pinchDistance rounded_hypot boundary_hand = 5404319552844595 / 36028797018963968"
    by (simp add: boundary_hand_def pinchDistance_def double_sub_def rounded_hypot_zero
          to_double_zero d)
  show "threshold rounded_hypot boundary_hand = 5404319552844595 / 36028797018963968"
    by (simp add: boundary_hand_def threshold_def double_sub_def double_mul_def
          rounded_hypot_zero to_double_zero to_double_small to_double_015 d)
qed

text \<open>
  C1.  For a hand whose landmarks 0, 4 and 8 exist, and whatever \<open>Math.hypot\<close> the engine
  has, the pinch test of the code holds exactly when the distance between thumb tip
  (landmark 4) and index tip (landmark 8), as \<open>Math.hypot\<close> gives it for the rounded
  coordinate differences, is strictly less than the rounded product of the double \<open>0.15\<close>
  and the distance between wrist (landmark 0) and index tip computed the same way.  The
  frame leaves the manager drawing exactly in that case, and when the two computed values
  are equal it leaves it not drawing.
\<close>

theorem pinch_classifier:
  assumes "8 < length lms"
  shows "(pinchDistance (math_hypot E) lms < threshold (math_hypot E) lms
            \<longleftrightarrow> double_distance (math_hypot E) (lms ! 4) (lms ! 8)
                  < double_mul (double_distance (math_hypot E) (lms ! 0) (lms ! 8))
                      (to_double 0.15))
       \<and> (drawing (state_of (onResults E mirror (Some [lms]) st))
            \<longleftrightarrow> double_distance (math_hypot E) (lms ! 4) (lms ! 8)
                  < double_mul (double_distance (math_hypot E) (lms ! 0) (lms ! 8))
                      (to_double 0.15))
       \<and> (double_distance (math_hypot E) (lms ! 4) (lms ! 8)
            = double_mul (double_distance (math_hypot E) (lms ! 0) (lms ! 8)) (to_double 0.15)
            \<longrightarrow> \<not> drawing (state_of (onResults E mirror (Some [lms]) st)))"
  using assms by (simp add: onResults_single onHand_drawing pinch_iff)

theorem pinch_classifier_witness:
  "8 < length (demo_hand (9/16))
   \<and> double_distance rounded_hypot (demo_hand (9/16) ! 4) (demo_hand (9/16) ! 8) = 1/16
   \<and> double_mul (double_distance rounded_hypot (demo_hand (9/16) ! 0) (demo_hand (9/16) ! 8))
        (to_double 0.15) = 5404319552844595 / 72057594037927936
   \<and> drawing (state_of (onResults demo_engine False (Some [demo_hand (9/16)])
                 (new_DrawingManager (blank_canvas 300 150))))
   \<and> 8 < length boundary_hand
   \<and> double_distance rounded_hypot (boundary_hand ! 4) (boundary_hand ! 8)
       = double_mul (double_distance rounded_hypot (boundary_hand ! 0) (boundary_hand ! 8))
           (to_double 0.15)
   \<and> \<not> drawing (state_of (onResults demo_engine False (Some [boundary_hand])
                 (new_DrawingManager (blank_canvas 300 150))))"
proof -
  let ?st0 = "new_DrawingManager (blank_canvas 300 150)"
  have l: "8 < length (demo_hand (9/16))" "8 < length boundary_hand"
    by (simp_all add: demo_hand_fields boundary_hand_fields)
  have a: "double_distance rounded_hypot (demo_hand (9/16) ! 4) (demo_hand (9/16) ! 8) = 1/16"
    "double_mul (double_distance rounded_hypot (demo_hand (9/16) ! 0) (demo_hand (9/16) ! 8))
        (to_double 0.15) = 5404319552844595 / 72057594037927936"
    using demo_hand_fields(3)[of "9/16"] demo_hand_fields(4)
    by (simp_all add: pinchDistance_def threshold_def double_distance_def Let_def)
  have b: "double_distance rounded_hypot (boundary_hand ! 4) (boundary_hand ! 8)
       = double_mul (double_distance rounded_hypot (boundary_hand ! 0) (boundary_hand ! 8))
           (to_double 0.15)"
    using boundary_hand_fields(5,6)
    by (simp add: pinchDistance_def threshold_def double_distance_def Let_def)
  have lt: "(1/16 :: real) < 5404319552844595 / 72057594037927936" by simp
  from pinch_classifier[OF l(1), of demo_engine False ?st0] a lt
  have 1: "drawing (state_of (onResults demo_engine False (Some [demo_hand (9/16)]) ?st0))"
    by (simp add: engine_fields)
  from pinch_classifier[OF l(2), of demo_engine False ?st0] b
  have 2: "\<not> drawing (state_of (onResults demo_engine False (Some [boundary_hand]) ?st0))"
    by (simp add: engine_fields)
  from l a b 1 2 show ?thesis by blast
qed

text \<open>
  The thumb tip is the double \<open>0.15\<close> away from the index tip and the wrist is 1 away:
  the exact distance is less than the exact \<open>0.15\<close> times the wrist distance, but the
  program compares the double \<open>0.15\<close> with itself and does not start drawing.
\<close>

theorem pinch_boundary_counterexample:
  "8 < length boundary_hand
   \<and> euclidean (boundary_hand ! 4) (boundary_hand ! 8)
       < 0.15 * euclidean (boundary_hand ! 0) (boundary_hand ! 8)
   \<and> \<not> drawing (state_of (onResults demo_engine False (Some [boundary_hand])
                 (new_DrawingManager (blank_canvas 300 150))))"
  by (simp add: boundary_hand_fields euclidean_vertical onResults_single onHand_drawing
        engine_fields)

section \<open>Pointer events\<close>

lemma pointer_listener_absent: "pointer_listener body ev pos st = Thrown TypeError st"
  by (cases ev) (simp_all add: pointer_listener_def DrawingManager_methods_def)

text \<open>
  C4.  The class defines none of \<open>handlePointerDown\<close>, \<open>handlePointerMove\<close> and
  \<open>handlePointerUp\<close>, so each of the five pointer listeners throws a \<open>TypeError\<close> and
  leaves the manager as it was: no snapshot is pushed, no last point is set and no line
  is drawn.
\<close>

theorem pointer_listener_throws:
  "pointer_listener body ev pos st = Thrown TypeError st
   \<and> undoStack (state_of (pointer_listener body pointerdown pos st)) = undoStack st
   \<and> lastPoint (state_of (pointer_listener body pointerdown pos st)) = lastPoint st
   \<and> canvas (state_of (pointer_listener body pointermove pos st)) = canvas st"
  by (simp add: pointer_listener_absent)

section \<open>A pinch gesture\<close>

lemma run_frames_append:
  "run_frames E (fs @ fs') st =
     (fst (run_frames E fs st) @ fst (run_frames E fs' (snd (run_frames E fs st))),
      snd (run_frames E fs' (snd (run_frames E fs st))))"
  by (induction fs arbitrary: st) (simp_all add: split_beta split: outcome.splits)

text \<open>Pinch frames while the manager is drawing: one segment per frame, no snapshot.\<close>

lemma gesture_continue:
  assumes "drawing st" and "lastPoint st = Some l"
    and "\<forall>g\<in>set gs. 8 < length (snd g)
           \<and> pinchDistance (math_hypot E) (snd g) < threshold (math_hypot E) (snd g)"
  shows "run_frames E (map hand_frame gs) st =
           ([], st\<lparr>handSmoothing := snd (smoothed (handSmoothing st) (map (frame_point st) gs)),
                   canvas := draw_segments (rasterise E) (currentColor st) (currentSize st)
                               (zip (l # fst (smoothed (handSmoothing st) (map (frame_point st) gs)))
                                    (fst (smoothed (handSmoothing st) (map (frame_point st) gs))))
                               (canvas st),
                   lastPoint := Some (last (l # fst (smoothed (handSmoothing st)
                                                      (map (frame_point st) gs)))),
                   points := points st @ fst (smoothed (handSmoothing st)
                                                (map (frame_point st) gs))\<rparr>)"
  using assms
proof (induction gs arbitrary: st l)
  case Nil
  then show ?case by (simp add: draw_segments_def)
next
  case (Cons g gs)
  let ?hs = "push_window (frame_point st g) (handSmoothing st)"
  let ?p = "average ?hs"
  let ?c1 = "state_of (drawLine (rasterise E) (Some l) ?p (currentColor st) (currentSize st)
                        (canvas st))"
  let ?st1 = "st\<lparr>handSmoothing := ?hs, canvas := ?c1, lastPoint := Some ?p,
                  points := points st @ [?p]\<rparr>"
  from Cons.prems have g: "8 < length (snd g)"
      "pinchDistance (math_hypot E) (snd g) < threshold (math_hypot E) (snd g)"
    and rest: "\<forall>g\<in>set gs. 8 < length (snd g)
                 \<and> pinchDistance (math_hypot E) (snd g) < threshold (math_hypot E) (snd g)"
    by simp_all
  have step: "onHand E (fst g) (snd g) st = Done ?st1"
    using onHand_continue[OF g Cons.prems(1,2), of "fst g"]
    by (simp add: Let_def frame_point_def)
  have fp: "frame_point ?st1 = frame_point st"
    by (rule ext) (simp add: frame_point_def drawLine_dims)
  have d1: "drawing ?st1" using Cons.prems(1) by simp
  have l1: "lastPoint ?st1 = Some ?p" by simp
  note ih = Cons.IH[OF d1 l1 rest, unfolded fp]
  show ?case
    by (simp add: onResults_hand_frame step ih split_beta Let_def draw_segments_def)
qed

text \<open>Pinch frames from an idle manager on a canvas of nonzero size.\<close>

lemma gesture_start:
  assumes "\<not> drawing st" and "0 < width (canvas st)" and "0 < height (canvas st)"
    and "\<forall>g\<in>set (g # gs). 8 < length (snd g)
           \<and> pinchDistance (math_hypot E) (snd g) < threshold (math_hypot E) (snd g)"
  shows "run_frames E (map hand_frame (g # gs)) st =
           ([], st\<lparr>handSmoothing := snd (smoothed (handSmoothing st)
                                            (map (frame_point st) (g # gs))),
                   canvas := draw_segments (rasterise E) (currentColor st) (currentSize st)
                               (zip (fst (smoothed (handSmoothing st)
                                            (map (frame_point st) (g # gs))))
                                    (tl (fst (smoothed (handSmoothing st)
                                                (map (frame_point st) (g # gs))))))
                               (canvas st),
                   drawing := True,
                   lastPoint := Some (last (fst (smoothed (handSmoothing st)
                                                   (map (frame_point st) (g # gs))))),
                   points := fst (smoothed (handSmoothing st) (map (frame_point st) (g # gs))),
                   undoStack := undoStack st @ [raster_copy (canvas st)]\<rparr>)"
proof -
  let ?hs = "push_window (frame_point st g) (handSmoothing st)"
  let ?p = "average ?hs"
  let ?st1 = "st\<lparr>handSmoothing := ?hs, drawing := True, lastPoint := Some ?p,
                  points := [?p], undoStack := undoStack st @ [raster_copy (canvas st)]\<rparr>"
  from assms(4) have g: "8 < length (snd g)"
      "pinchDistance (math_hypot E) (snd g) < threshold (math_hypot E) (snd g)"
    and rest: "\<forall>g\<in>set gs. 8 < length (snd g)
                 \<and> pinchDistance (math_hypot E) (snd g) < threshold (math_hypot E) (snd g)"
    by simp_all
  have step: "onHand E (fst g) (snd g) st = Done ?st1"
    using onHand_start[OF g assms(1,2,3), of "fst g"]
    by (simp add: Let_def frame_point_def)
  have fp: "frame_point ?st1 = frame_point st"
    by (rule ext) (simp add: frame_point_def)
  have d1: "drawing ?st1" by simp
  have l1: "lastPoint ?st1 = Some ?p" by simp
  note co = gesture_continue[OF d1 l1 rest, unfolded fp]
  show ?thesis
    by (simp add: onResults_hand_frame step co split_beta Let_def)
qed

subsection \<open>The concrete strokes\<close>

lemma two_frames_pinched:
  "\<forall>g\<in>set ((False, demo_hand (9/16)) # [(False, demo_hand (17/32))]).
     8 < length (snd g) \<and> pinchDistance rounded_hypot (snd g) < threshold rounded_hypot (snd g)"
  by (simp add: demo_hand_fields)

lemma two_frames_smoothed:
  "smoothed [] (map (frame_point (new_DrawingManager (blank_canvas 300 150)))
                   ((False, demo_hand (9/16)) # [(False, demo_hand (17/32))]))
     = ([(150, 75), (150, 75)], [(150, 75), (150, 75)])"
  by (simp add: frame_point_def fresh_fields blank_fields demo_hand_fields rawPoint_def
        push_window_def smoothingWindowSize_def average_def Let_def double_mul_def
        double_add_def double_div_def to_double_numeral)

lemma plain_stroke_fields:
  "undoStack plain_stroke = [raster_copy (blank_canvas 300 150)]"
  "drawing plain_stroke" "lastPoint plain_stroke = Some (150, 75)"
  "points plain_stroke = [(150, 75), (150, 75)]"
  "handSmoothing plain_stroke = [(150, 75), (150, 75)]"
  "width (canvas plain_stroke) = 300" "height (canvas plain_stroke) = 150"
  "bitmap (canvas plain_stroke) 0 0 = ink"
proof -
  let ?st0 = "new_DrawingManager (blank_canvas 300 150)"
  have h: "\<not> drawing ?st0" "0 < width (canvas ?st0)" "0 < height (canvas ?st0)"
    by (simp_all add: fresh_fields blank_fields)
  note run = gesture_start[of ?st0 "(False, demo_hand (9/16))" "[(False, demo_hand (17/32))]"
      demo_engine, OF h, unfolded engine_fields fresh_fields, OF two_frames_pinched,
      unfolded two_frames_smoothed]
  show "undoStack plain_stroke = [raster_copy (blank_canvas 300 150)]"
    "drawing plain_stroke" "lastPoint plain_stroke = Some (150, 75)"
    "points plain_stroke = [(150, 75), (150, 75)]"
    "handSmoothing plain_stroke = [(150, 75), (150, 75)]"
    unfolding plain_stroke_def two_frames_def run by (simp_all add: fresh_fields)
  show "width (canvas plain_stroke) = 300" "height (canvas plain_stroke) = 150"
    unfolding plain_stroke_def two_frames_def run
    by (simp_all add: draw_segments_dims fresh_fields blank_fields)
  show "bitmap (canvas plain_stroke) 0 0 = ink"
    unfolding plain_stroke_def two_frames_def run
    by (simp add: draw_segments_def drawLine_Some fresh_fields blank_fields blot_rasteriser_def)
qed

lemma hand_lost_eq:
  "hand_lost =
     (new_DrawingManager (blank_canvas 300 150))
       \<lparr>handSmoothing := [(150, 75), (150, 75)],
        canvas := draw_segments tally_rasteriser
                    (currentColor (new_DrawingManager (blank_canvas 300 150)))
                    (currentSize (new_DrawingManager (blank_canvas 300 150)))
                    [((150, 75), (150, 75))] (blank_canvas 300 150),
        drawing := True, lastPoint := Some (150, 75), points := [(150, 75), (150, 75)],
        undoStack := [raster_copy (blank_canvas 300 150)]\<rparr>"
proof -
  let ?st0 = "new_DrawingManager (blank_canvas 300 150)"
  have h: "\<not> drawing ?st0" "0 < width (canvas ?st0)" "0 < height (canvas ?st0)"
    by (simp_all add: fresh_fields blank_fields)
  note run = gesture_start[of ?st0 "(False, demo_hand (9/16))" "[(False, demo_hand (17/32))]"
      tally_engine, OF h, unfolded engine_fields fresh_fields, OF two_frames_pinched,
      unfolded two_frames_smoothed]
  show ?thesis
    unfolding hand_lost_def two_frames_def run_frames_append run
    by (simp add: onResults_def fresh_fields)
qed

lemma hand_lost_fields:
  "drawing hand_lost" "lastPoint hand_lost = Some (150, 75)"
  "undoStack hand_lost = [raster_copy (blank_canvas 300 150)]"
  "points hand_lost = [(150, 75), (150, 75)]"
  "handSmoothing hand_lost = [(150, 75), (150, 75)]"
  "width (canvas hand_lost) = 300" "height (canvas hand_lost) = 150"
  "isMirrored hand_lost = False"
  "bitmap (canvas hand_lost) 0 0 = (1, 0, 0, 0)"
proof -
  show "drawing hand_lost" "lastPoint hand_lost = Some (150, 75)"
    "undoStack hand_lost = [raster_copy (blank_canvas 300 150)]"
    "points hand_lost = [(150, 75), (150, 75)]"
    "handSmoothing hand_lost = [(150, 75), (150, 75)]"
    "isMirrored hand_lost = False"
    unfolding hand_lost_eq by (simp_all add: fresh_fields)
  show "width (canvas hand_lost) = 300" "height (canvas hand_lost) = 150"
    unfolding hand_lost_eq by (simp_all add: draw_segments_dims blank_fields)
  show "bitmap (canvas hand_lost) 0 0 = (1, 0, 0, 0)"
    unfolding hand_lost_eq
    by (simp add: draw_segments_def drawLine_Some blank_fields tally_rasteriser_def
          transparent_def)
qed

lemma second_gesture_smoothed:
  "smoothed (handSmoothing hand_lost)
     (map (frame_point hand_lost) ((False, demo_hand (9/16)) # [(False, demo_hand (17/32))]))
     = ([(150, 75), (150, 75)], [(150, 75), (150, 75), (150, 75), (150, 75)])"
  by (simp add: frame_point_def hand_lost_fields demo_hand_fields rawPoint_def
        push_window_def smoothingWindowSize_def average_def Let_def double_mul_def
        double_add_def double_div_def to_double_numeral)

lemma second_gesture_run:
  "run_frames tally_engine second_gesture hand_lost =
     ([], hand_lost
        \<lparr>handSmoothing := [(150, 75), (150, 75), (150, 75), (150, 75)],
         canvas := draw_segments tally_rasteriser (currentColor hand_lost)
                     (currentSize hand_lost)
                     [((150, 75), (150, 75)), ((150, 75), (150, 75))] (canvas hand_lost),
         lastPoint := Some (150, 75),
         points := [(150, 75), (150, 75), (150, 75), (150, 75)]\<rparr>)"
  using gesture_continue[of hand_lost "(150, 75)"
      "(False, demo_hand (9/16)) # [(False, demo_hand (17/32))]" tally_engine,
      OF hand_lost_fields(1,2), unfolded engine_fields, OF two_frames_pinched,
      unfolded second_gesture_smoothed]
  by (simp add: second_gesture_def two_frames_def hand_lost_fields)

text \<open>
  C2.  A stroke of two pinch frames is followed by a frame without a hand, which leaves
  the manager drawing with one snapshot on the undo stack and one segment drawn.  A
  gesture of \<open>N = 2\<close> pinch frames comes next, ended by a frame whose hand does not pinch.
  No frame throws, but the gesture pushes no snapshot (the undo stack still holds only the
  snapshot of the first stroke) and draws 2 segments, not \<open>N - 1 = 1\<close>: the stroke counter
  goes from 1 to 3, and the point list of the old stroke grows to four points.
\<close>

theorem gesture_after_hand_loss:
  "drawing hand_lost
   \<and> undoStack hand_lost = [raster_copy (blank_canvas 300 150)]
   \<and> bitmap (canvas hand_lost) 0 0 = (1, 0, 0, 0)
   \<and> fst (run_frames tally_engine (second_gesture @ [release_frame]) hand_lost) = []
   \<and> undoStack (snd (run_frames tally_engine second_gesture hand_lost))
       = [raster_copy (blank_canvas 300 150)]
   \<and> points (snd (run_frames tally_engine second_gesture hand_lost))
       = [(150, 75), (150, 75), (150, 75), (150, 75)]
   \<and> bitmap (canvas (snd (run_frames tally_engine second_gesture hand_lost))) 0 0
       = (3, 0, 0, 0)
   \<and> undoStack (snd (run_frames tally_engine (second_gesture @ [release_frame]) hand_lost))
       = [raster_copy (blank_canvas 300 150)]
   \<and> bitmap (canvas (snd (run_frames tally_engine (second_gesture @ [release_frame])
                              hand_lost))) 0 0 = (3, 0, 0, 0)
   \<and> \<not> drawing (snd (run_frames tally_engine (second_gesture @ [release_frame]) hand_lost))"
proof -
  let ?s = "snd (run_frames tally_engine second_gesture hand_lost)"
  have u: "undoStack ?s = [raster_copy (blank_canvas 300 150)]"
    and p: "points ?s = [(150, 75), (150, 75), (150, 75), (150, 75)]"
    by (simp_all add: second_gesture_run hand_lost_fields)
  have b: "bitmap (canvas ?s) 0 0 = (3, 0, 0, 0)"
    by (simp add: second_gesture_run draw_segments_def drawLine_Some hand_lost_fields
          tally_rasteriser_def)
  have r: "onResults tally_engine (fst release_frame) (snd release_frame) ?s
             = Done (?s\<lparr>handSmoothing :=
                          push_window (rawPoint False (isMirrored ?s) (width (canvas ?s))
                             (height (canvas ?s)) (demo_hand (3/4) ! 8)) (handSmoothing ?s),
                       drawing := False, lastPoint := None, points := []\<rparr>)"
    using onHand_release[of "demo_hand (3/4)" tally_engine False ?s]
    by (simp add: release_frame_def onResults_hand_frame engine_fields demo_hand_fields)
  have e: "fst (run_frames tally_engine (second_gesture @ [release_frame]) hand_lost) = []"
    and f: "snd (run_frames tally_engine (second_gesture @ [release_frame]) hand_lost)
             = ?s\<lparr>handSmoothing :=
                          push_window (rawPoint False (isMirrored ?s) (width (canvas ?s))
                             (height (canvas ?s)) (demo_hand (3/4) ! 8)) (handSmoothing ?s),
                       drawing := False, lastPoint := None, points := []\<rparr>"
    unfolding run_frames_append by (simp_all add: r) (simp add: second_gesture_run)
  show ?thesis
    unfolding e f using u p b by (simp add: hand_lost_fields)
qed

section \<open>A frame without a hand\<close>

text \<open>
  C3.  When the frame brings no hand (an empty or missing landmark list) the loop body
  does not run and \<open>onResults\<close> returns the manager as it found it.  A stroke in progress
  stays in progress: after two pinch frames and a frame without a hand the manager is
  still drawing, with its last point and its point list.
\<close>

theorem no_hand_frame_unchanged:
  "onResults E mirror (Some []) st = Done st
   \<and> onResults E mirror None st = Done st
   \<and> drawing (state_of (onResults demo_engine False (Some []) plain_stroke))
   \<and> lastPoint (state_of (onResults demo_engine False (Some []) plain_stroke))
       = Some (150, 75)
   \<and> points (state_of (onResults demo_engine False (Some []) plain_stroke))
       = [(150, 75), (150, 75)]"
  by (simp add: onResults_def plain_stroke_fields)

section \<open>Resizing\<close>

lemma resizeCanvases_ok:
  assumes "0 < width (canvas st)" and "0 < height (canvas st)"
  shows "resizeCanvases w h st =
     Done (st\<lparr>canvas :=
              \<lparr>width = w, height = h,
               bitmap = (\<lambda>x y. if x < min w (width (canvas st)) \<and> y < min h (height (canvas st))
                               then bitmap (canvas st) x y else transparent),
               dstate = default_drawing_state, path = [], saved = []\<rparr>\<rparr>)"
proof -
  have "putImageData (raster_copy (canvas st)) (set_height h (set_width w (canvas st))) =
      \<lparr>width = w, height = h,
               bitmap = (\<lambda>x y. if x < min w (width (canvas st)) \<and> y < min h (height (canvas st))
                               then bitmap (canvas st) x y else transparent),
               dstate = default_drawing_state, path = [], saved = []\<rparr>"
    by (rule canvas2d.equality)
       (auto simp: putImageData_def raster_copy_def set_height_def set_width_def reset_context_def
          fun_eq_iff)
  then show ?thesis
    by (simp add: resizeCanvases_def getImageData_own[OF assms])
qed

lemma resizeCanvases_zero:
  "width (canvas st) = 0 \<or> height (canvas st) = 0 \<Longrightarrow>
   resizeCanvases w h st = Thrown IndexSizeError st"
  by (auto simp: resizeCanvases_def getImageData_def)

lemma stroke_across_resize_fields:
  "undoStack stroke_across_resize = [raster_copy (blank_canvas 1 1)]"
  "bitmap (canvas stroke_across_resize) (Suc 0) 0 = ink"
  "width (canvas stroke_across_resize) = 2" "height (canvas stroke_across_resize) = 1"
  "\<not> drawing stroke_across_resize"
  "handSmoothing stroke_across_resize = [(1/2, 1/2), (1, 1/2), (1, 1/2)]"
  "isMirrored stroke_across_resize = False"
  unfolding stroke_across_resize_def Let_def onResults_single
  by (simp_all add: onHand_start onHand_continue onHand_release demo_hand_fields fresh_fields
       blank_fields engine_fields resizeCanvases_ok Let_def drawLine_Some blot_rasteriser_def
       rawPoint_def push_window_def smoothingWindowSize_def double_mul_def to_double_small)

text \<open>
  C9.  When the canvas has nonzero width and height, \<open>resizeCanvases\<close> returns; the canvas
  has the new dimensions; every pixel that lies inside both the old and the new
  dimensions keeps its value and every other pixel is transparent black; the context's
  drawing state, path and stack of saved states are reset; and the drawing flag, the last
  point, the point list, the smoothing buffer and the undo stack are unchanged.
\<close>

theorem resizeCanvases_effect:
  assumes "0 < width (canvas st)" and "0 < height (canvas st)"
  shows "resizeCanvases w h st =
           Done (st\<lparr>canvas :=
              \<lparr>width = w, height = h,
               bitmap = (\<lambda>x y. if x < min w (width (canvas st)) \<and> y < min h (height (canvas st))
                               then bitmap (canvas st) x y else transparent),
               dstate = default_drawing_state, path = [], saved = []\<rparr>\<rparr>)
       \<and> drawing (state_of (resizeCanvases w h st)) = drawing st
       \<and> lastPoint (state_of (resizeCanvases w h st)) = lastPoint st
       \<and> points (state_of (resizeCanvases w h st)) = points st
       \<and> handSmoothing (state_of (resizeCanvases w h st)) = handSmoothing st
       \<and> undoStack (state_of (resizeCanvases w h st)) = undoStack st"
  by (simp add: resizeCanvases_ok[OF assms])

theorem resizeCanvases_effect_witness:
  "0 < width (canvas plain_stroke) \<and> 0 < height (canvas plain_stroke)
   \<and> returned (resizeCanvases 200 100 plain_stroke)
   \<and> drawing plain_stroke
   \<and> drawing (state_of (resizeCanvases 200 100 plain_stroke))
   \<and> lastPoint (state_of (resizeCanvases 200 100 plain_stroke)) = Some (150, 75)
   \<and> bitmap (canvas (state_of (resizeCanvases 200 100 plain_stroke))) 0 0 = ink"
proof -
  have h: "0 < width (canvas plain_stroke)" "0 < height (canvas plain_stroke)"
    by (simp_all add: plain_stroke_fields)
  from resizeCanvases_effect[OF h, of 200 100] h show ?thesis
    by (simp add: plain_stroke_fields)
qed

text \<open>
  A canvas that a resize has given width 0 makes the next resize throw; and a pixel
  that a shrinking resize cuts off is transparent after the canvas has grown back.
\<close>

theorem resizeCanvases_counterexample:
  "\<not> returned (resizeCanvases 300 150
                 (state_of (resizeCanvases 0 150 (new_DrawingManager (blank_canvas 300 150)))))
   \<and> bitmap (canvas stroke_across_resize) 1 0 = ink
   \<and> bitmap (canvas (state_of (resizeCanvases 2 1
                (state_of (resizeCanvases 1 1 stroke_across_resize))))) 1 0 = transparent
   \<and> ink \<noteq> transparent"
  by (simp add: resizeCanvases_ok resizeCanvases_zero stroke_across_resize_fields fresh_fields
        blank_fields ink_visible)

section \<open>Undo\<close>

lemma undo_empty: "undoStack st = [] \<Longrightarrow> undo st = st"
  by (simp add: undo_def)

lemma undo_pop:
  "undoStack st = us @ [im] \<Longrightarrow>
   undo st = st\<lparr>undoStack := us, canvas := putImageData im (canvas st)\<rparr>"
  by (simp add: undo_def Let_def)

text \<open>
  C7.  On an empty undo stack \<open>undo\<close> changes nothing.  On a non-empty one it pops the most
  recent snapshot and writes it at the origin: every canvas pixel inside the snapshot's
  dimensions takes the snapshot's value and every other pixel keeps the value it had;
  nothing else changes.  When the snapshot is at least as wide and as high as the canvas,
  the whole raster is exactly the snapshot's.
\<close>

theorem undo_effect:
  "(undoStack st = [] \<longrightarrow> undo st = st)
   \<and> (undoStack st = us @ [im] \<longrightarrow>
        undo st = st\<lparr>undoStack := us, canvas := putImageData im (canvas st)\<rparr>
      \<and> (\<forall>x y. bitmap (canvas (undo st)) x y =
              (if x < img_width im \<and> y < img_height im
                  \<and> x < width (canvas st) \<and> y < height (canvas st)
               then img_data im x y else bitmap (canvas st) x y))
      \<and> (width (canvas st) \<le> img_width im \<and> height (canvas st) \<le> img_height im \<longrightarrow>
            (\<forall>x<width (canvas st). \<forall>y<height (canvas st).
               bitmap (canvas (undo st)) x y = img_data im x y)))"
  by (auto simp: undo_empty undo_pop putImageData_def)

theorem undo_effect_witness:
  "undoStack (new_DrawingManager (blank_canvas 300 150)) = []
   \<and> undo (new_DrawingManager (blank_canvas 300 150)) = new_DrawingManager (blank_canvas 300 150)
   \<and> undoStack plain_stroke = [] @ [raster_copy (blank_canvas 300 150)]
   \<and> width (canvas plain_stroke) \<le> img_width (raster_copy (blank_canvas 300 150))
   \<and> height (canvas plain_stroke) \<le> img_height (raster_copy (blank_canvas 300 150))
   \<and> undoStack (undo plain_stroke) = []
   \<and> bitmap (canvas plain_stroke) 0 0 = ink
   \<and> bitmap (canvas (undo plain_stroke)) 0 0 = transparent"
proof -
  have e: "undoStack (new_DrawingManager (blank_canvas 300 150)) = []"
    by (simp add: fresh_fields)
  have s: "undoStack plain_stroke = [] @ [raster_copy (blank_canvas 300 150)]"
    by (simp add: plain_stroke_fields)
  have d: "width (canvas plain_stroke) \<le> img_width (raster_copy (blank_canvas 300 150))"
    "height (canvas plain_stroke) \<le> img_height (raster_copy (blank_canvas 300 150))"
    by (simp_all add: plain_stroke_fields raster_copy_def blank_fields)
  have i: "bitmap (canvas plain_stroke) 0 0 = ink" by (simp add: plain_stroke_fields)
  have t: "img_data (raster_copy (blank_canvas 300 150)) 0 0 = transparent"
    by (simp add: raster_copy_def blank_fields)
  from undo_effect[of "new_DrawingManager (blank_canvas 300 150)" "[]"
                      "raster_copy (blank_canvas 300 150)"] e
  have 1: "undo (new_DrawingManager (blank_canvas 300 150))
             = new_DrawingManager (blank_canvas 300 150)" by blast
  from undo_effect[of plain_stroke "[]" "raster_copy (blank_canvas 300 150)"] s d
  have 2: "undo plain_stroke = plain_stroke\<lparr>undoStack := [],
              canvas := putImageData (raster_copy (blank_canvas 300 150)) (canvas plain_stroke)\<rparr>"
    and 3: "\<forall>x<width (canvas plain_stroke). \<forall>y<height (canvas plain_stroke).
               bitmap (canvas (undo plain_stroke)) x y
                 = img_data (raster_copy (blank_canvas 300 150)) x y"
    by blast+
  from 3 have "bitmap (canvas (undo plain_stroke)) 0 0 = transparent"
    by (simp add: plain_stroke_fields t)
  with 1 2 e s d i show ?thesis by simp
qed

text \<open>
  The stroke that went on after the canvas had grown: its snapshot is 1 by 1 and the
  canvas is 2 by 1, so \<open>undo\<close> leaves the ink of the stroke at pixel (1, 0), where the
  snapshot is transparent.
\<close>

theorem undo_counterexample:
  "undoStack stroke_across_resize = [raster_copy (blank_canvas 1 1)]
   \<and> 1 < width (canvas stroke_across_resize) \<and> 0 < height (canvas stroke_across_resize)
   \<and> img_data (raster_copy (blank_canvas 1 1)) 1 0 = transparent
   \<and> bitmap (canvas (undo stroke_across_resize)) 1 0 = ink
   \<and> ink \<noteq> transparent"
  by (simp add: stroke_across_resize_fields undo_def Let_def putImageData_def raster_copy_def
        blank_fields ink_visible)

section \<open>The smoothing buffer across strokes\<close>



end
